theory Spec2Isabelle
  imports Complex_Main "HOL-Library.Multiset" "HOL-Library.AList" "HOL-Library.Log_Nat"
    "HOL-Library.List_Lexorder" "HOL-Library.Char_ord"
begin

section \<open>Data model\<close>

text \<open>
  The Firestore \<open>Timestamp\<close> class is only ever observed through \<open>toMillis()\<close> by the
  code (comparators, expiry checks, offsets), so a timestamp is its millisecond value.
  A number that arrives in a request payload is finite and is modelled by its exact value,
  a rational; \<open>undefined\<close> is \<open>None\<close>.
\<close>

datatype Timestamp = Millis (toMillis: int)

type_synonym number = rat

text \<open>A thrown JavaScript \<open>Error\<close>: only its message is inspected by the code.\<close>

datatype Error = Error (message: string)

section \<open>Numbers of the language\<close>

text \<open>
  The measures that are added up are IEEE 754 double precision numbers: a finite value
  (given exactly, as a rational), an infinity or NaN. The sign of zero is not observed by
  the code and is left out.
\<close>

datatype double = Finite rat | PosInfinity | NegInfinity | NaN

text \<open>Rounding to the nearest integer, a tie going to the even neighbour.\<close>

definition roundHalfEven :: "rat \<Rightarrow> int" where
  "roundHalfEven x =
     (let f = \<lfloor>x\<rfloor>; d = x - of_int f
      in if d < 1 / 2 then f else if 1 / 2 < d then f + 1 else if even f then f else f + 1)"

text \<open>For a positive \<open>x\<close>, the exponent \<open>e\<close> with \<open>2 powi e \<le> x < 2 powi (e + 1)\<close>: the
  bit lengths of numerator and denominator give it up to one.\<close>

definition log2floor :: "rat \<Rightarrow> int" where
  "log2floor x =
     (let (p, q) = quotient_of x; e = bitlen p - bitlen q
      in if 2 powi e \<le> x then e else e - 1)"

text \<open>
  Rounding of an exact result to double precision, to nearest with ties to even: 53
  significant bits, the spacing never finer than \<open>2 powi - 1074\<close> (subnormal numbers), and
  an infinity when the rounded magnitude reaches \<open>2 powi 1024\<close>.
\<close>

definition roundDouble :: "rat \<Rightarrow> double" where
  "roundDouble x =
     (if x = 0 then Finite 0
      else
        let a = \<bar>x\<bar>;
            q = max (log2floor a - 52) (- 1074);
            m = roundHalfEven (a / 2 powi q);
            r = of_int m * 2 powi q
        in if 2 powi 1024 \<le> r then (if 0 < x then PosInfinity else NegInfinity)
           else Finite (if 0 < x then r else - r))"

text \<open>The operator \<open>+\<close> on numbers.\<close>

fun fadd :: "double \<Rightarrow> double \<Rightarrow> double" where
  "fadd NaN y = NaN"
| "fadd x NaN = NaN"
| "fadd PosInfinity NegInfinity = NaN"
| "fadd NegInfinity PosInfinity = NaN"
| "fadd PosInfinity y = PosInfinity"
| "fadd x PosInfinity = PosInfinity"
| "fadd NegInfinity y = NegInfinity"
| "fadd x NegInfinity = NegInfinity"
| "fadd (Finite x) (Finite y) = roundDouble (x + y)"

section \<open>Events and aggregates\<close>

text \<open>\<open>interface Event\<close> of the event types (\<open>unnamed/part_001\<close>). The measures are read
  with \<open>val || 0\<close> by the aggregate helper, so they may be \<open>undefined\<close> at run time, and
  \<open>sequenceNumber\<close> is optional.\<close>

record Event =
  eventId :: string
  timestamp :: Timestamp
  duration :: "double option"
  distance :: "double option"
  calories :: "double option"
  steps :: "double option"
  sequenceNumber :: "number option"
  ingestedAt :: Timestamp
  version :: nat

text \<open>\<open>types/session.ts\<close>: \<open>interface SessionAggregates\<close>.\<close>

record SessionAggregates =
  startTime :: Timestamp
  endTime :: Timestamp
  totalDuration :: double
  totalDistance :: double
  totalCalories :: double
  totalSteps :: double
  eventCount :: nat
  lastEventTime :: Timestamp

section \<open>Aggregate helper (\<open>helpers/aggregateHelper.ts\<close>)\<close>

text \<open>\<open>val || 0\<close>: a falsy value (\<open>undefined\<close>, \<open>NaN\<close> or \<open>0\<close>) yields \<open>0\<close>.\<close>

definition orZero :: "double option \<Rightarrow> double" where
  "orZero val =
     (case val of
        None \<Rightarrow> Finite 0
      | Some NaN \<Rightarrow> Finite 0
      | Some (Finite v) \<Rightarrow> (if v = 0 then Finite 0 else Finite v)
      | Some v \<Rightarrow> v)"

text \<open>\<open>function sum(numbers)\<close>: \<open>numbers.reduce((acc, val) => acc + (val || 0), 0)\<close>.\<close>

definition sum_numbers :: "double option list \<Rightarrow> double" where
  "sum_numbers numbers = foldl (\<lambda>acc val. fadd acc (orZero val)) (Finite 0) numbers"

text \<open>\<open>[...events].sort((a, b) => a.timestamp.toMillis() - b.timestamp.toMillis())\<close>:
  the array sort of the language is stable, as is insertion sort by key.\<close>

definition sortByTimestamp :: "Event list \<Rightarrow> Event list" where
  "sortByTimestamp evs = sort_key (\<lambda>e. toMillis (timestamp e)) evs"

definition computeAggregates :: "Event list \<Rightarrow> Error + SessionAggregates" where
  "computeAggregates evs =
     (if length evs = 0 then Inl (Error ''Cannot compute aggregates from empty event list'')
      else
        let sorted = sortByTimestamp evs;
            totalDuration = sum_numbers (map duration sorted);
            totalDistance = sum_numbers (map distance sorted);
            totalCalories = sum_numbers (map calories sorted);
            totalSteps = sum_numbers (map steps sorted)
        in Inr \<lparr> startTime = timestamp (sorted ! 0),
                 endTime = timestamp (sorted ! (length sorted - 1)),
                 totalDuration = totalDuration,
                 totalDistance = totalDistance,
                 totalCalories = totalCalories,
                 totalSteps = totalSteps,
                 eventCount = length sorted,
                 lastEventTime = timestamp (sorted ! (length sorted - 1)) \<rparr>)"

definition defaultAggregates :: "Timestamp \<Rightarrow> SessionAggregates" where
  "defaultAggregates ts =
     \<lparr> startTime = ts, endTime = ts, totalDuration = Finite 0, totalDistance = Finite 0,
       totalCalories = Finite 0, totalSteps = Finite 0, eventCount = 0, lastEventTime = ts \<rparr>"

text \<open>\<open>types/session.ts\<close>: \<open>interface Session\<close>; \<open>endTime\<close> is \<open>Timestamp | null\<close>.\<close>

record Session =
  userId :: string
  startTime :: Timestamp
  endTime :: "Timestamp option"
  totalDuration :: double
  totalDistance :: double
  totalCalories :: double
  totalSteps :: double
  eventCount :: nat
  lastEventTime :: Timestamp
  version :: nat
  createdAt :: Timestamp
  updatedAt :: Timestamp

section \<open>Idempotency types (\<open>types/idempotency.ts\<close>) and handler responses\<close>

record AggregateTotals =
  totalDuration :: double
  totalDistance :: double
  totalCalories :: double
  totalSteps :: double
  eventCount :: nat

record SessionInfo =
  sessionId :: string
  aggregates :: AggregateTotals

text \<open>One constructor per message template of the validator; the arguments are
  the values interpolated into the template.\<close>

datatype ValidationMessage =
    TimestampTooFarInFuture number number
  | TimestampTooFarInPast number number
  | DistanceNegative
  | DistanceExceedsMaximum number number
  | CaloriesNegative
  | CaloriesExceedsMaximum number number
  | StepsNegative
  | StepsNotInteger
  | StepsExceedsMaximum number number
  | DurationNegative
  | DurationExceedsMaximum number number
  | EventIdRequired
  | SessionIdRequired
  | UserIdRequired
  | TimestampRequired
  | InvalidTimestampFormat Error

text \<open>
  An optional property of an object literal: the key is left out, the key is written with
  the value \<open>undefined\<close>, or it carries a value. The difference matters to the store, which
  refuses to write \<open>undefined\<close>.
\<close>

datatype 'a property = Absent | Undefined | Present 'a

text \<open>\<open>interface IngestResponse\<close> of the ingest handler. The success responses are built
  with \<open>session: result.session ? {...} : undefined\<close>.\<close>

record IngestResponse =
  success :: bool
  session :: "SessionInfo property"
  error :: "string option"
  errors :: "ValidationMessage list option"

text \<open>The \<open>object\<close> cached in an idempotency record: \<open>{}\<close> (written by
  \<open>markProcessing\<close>), a handler response (\<open>cacheResponse\<close>) or
  \<open>{ error: { error: message } }\<close> (\<open>markFailed\<close>).\<close>

datatype JsonObject =
    EmptyObject
  | ResponseObject IngestResponse
  | ErrorObject string

datatype IdempotencyStatus = Processing | Completed | Failed

record IdempotencyRecord =
  sessionId :: string
  status :: IdempotencyStatus
  response :: JsonObject
  createdAt :: Timestamp
  expiresAt :: Timestamp

record IdempotencyResult =
  isDuplicate :: bool
  cachedResponse :: "JsonObject option"

section \<open>The document store\<close>

text \<open>
  The three collections of \<open>COLLECTIONS\<close> (\<open>unnamed/part_003\<close>): \<open>sessions/{sessionId}\<close>,
  \<open>sessions/{sessionId}/events/{eventId}\<close> and \<open>idempotency/{key}\<close>. The events of a
  session are kept as an association list from document id to document.
\<close>

record Store =
  sessions :: "string \<rightharpoonup> Session"
  events :: "string \<Rightarrow> (string \<times> Event) list"
  idempotency :: "string \<rightharpoonup> IdempotencyRecord"

definition emptyStore :: Store where
  "emptyStore = \<lparr> sessions = Map.empty, events = (\<lambda>_. []), idempotency = Map.empty \<rparr>"

text \<open>Reading a whole collection (\<open>transaction.get\<close> of a collection reference) lists its
  documents by document id, ids compared byte by byte.\<close>

definition listDocuments :: "(string \<times> 'a) list \<Rightarrow> 'a list" where
  "listDocuments docs = map snd (sort_key fst docs)"

text \<open>
  The store is initialised by \<open>admin.firestore()\<close> with no settings
  (\<open>unnamed/part_003\<close>), so \<open>ignoreUndefinedProperties\<close> is off: a write whose data holds
  \<open>undefined\<close> is refused with an error naming the first such field.
\<close>

definition undefinedValueError :: "string \<Rightarrow> Error" where
  "undefinedValueError field =
     Error (''Value for argument data is not a valid Firestore document. ''
            @ ''Cannot use undefined as a Firestore value (found in field '' @ field
            @ ''). If you want to ignore undefined values, enable ignoreUndefinedProperties.'')"

text \<open>
  A failure with which the store rejects a transaction attempt: what caused it (a
  concurrent modification of the documents of the transaction, or anything else) and the
  error that is thrown.
\<close>

datatype FailureCause = ConcurrentModification | OtherCause

record StoreFailure =
  cause :: FailureCause
  thrown :: Error

text \<open>
  What the request handling reads from its environment: the clock (\<open>Date.now()\<close>,
  \<open>Timestamp.now()\<close>; one instant per request), the server timestamp written by
  \<open>FieldValue.serverTimestamp()\<close>, the failure (if any) with which the store rejects the
  n-th transaction attempt, and the date parser of the language (\<open>new Date(string)\<close>,
  \<open>None\<close> for an invalid date).
\<close>

record Env =
  now :: Timestamp
  serverTimestamp :: Timestamp
  faults :: "nat \<Rightarrow> StoreFailure option"
  parseDate :: "string \<Rightarrow> int option"

section \<open>Transaction helper (\<open>helpers/transactionHelper.ts\<close>)\<close>

datatype UpsertStatus = Created | Duplicate | Updated

record UpsertResult =
  status :: UpsertStatus
  session :: "SessionAggregates option"

definition MAX_TRANSACTION_RETRIES :: nat where
  "MAX_TRANSACTION_RETRIES = 3"

text \<open>\<open>String.prototype.includes\<close>, through \<open>startsWith\<close> at every position.\<close>

fun startsWith :: "string \<Rightarrow> string \<Rightarrow> bool" where
  "startsWith s [] = True"
| "startsWith [] (c # cs) = False"
| "startsWith (x # xs) (c # cs) = (x = c \<and> startsWith xs cs)"

fun includesSub :: "string \<Rightarrow> string \<Rightarrow> bool" where
  "includesSub [] sub = (sub = [])"
| "includesSub (x # xs) sub = (startsWith (x # xs) sub \<or> includesSub xs sub)"

text \<open>The session fields returned on the duplicate path:
  \<open>endTime: session.endTime ?? session.startTime\<close>, the others as stored.\<close>

definition sessionAggregates :: "Session \<Rightarrow> SessionAggregates" where
  "sessionAggregates sess =
     \<lparr> SessionAggregates.startTime = Session.startTime sess,
       SessionAggregates.endTime =
         (case Session.endTime sess of None \<Rightarrow> Session.startTime sess | Some t \<Rightarrow> t),
       SessionAggregates.totalDuration = Session.totalDuration sess,
       SessionAggregates.totalDistance = Session.totalDistance sess,
       SessionAggregates.totalCalories = Session.totalCalories sess,
       SessionAggregates.totalSteps = Session.totalSteps sess,
       SessionAggregates.eventCount = Session.eventCount sess,
       SessionAggregates.lastEventTime = Session.lastEventTime sess \<rparr>"

text \<open>The first property of an event object, in the order of the literal, whose value is
  \<open>undefined\<close>.\<close>

definition firstUndefined :: "Event \<Rightarrow> string option" where
  "firstUndefined event =
     (if Event.duration event = None then Some ''duration''
      else if Event.distance event = None then Some ''distance''
      else if Event.calories event = None then Some ''calories''
      else if Event.steps event = None then Some ''steps''
      else if Event.sequenceNumber event = None then Some ''sequenceNumber''
      else None)"

text \<open>
  The callback passed to \<open>db.runTransaction\<close>. Its writes (\<open>transaction.set\<close>,
  \<open>transaction.update\<close>) are applied to the store it returns; when it throws, nothing
  is written. \<open>transaction.set(eventRef, event)\<close> throws when the event holds
  \<open>undefined\<close>.
\<close>

definition upsertTransaction ::
  "string \<Rightarrow> string \<Rightarrow> Event \<Rightarrow> Env \<Rightarrow> Store \<Rightarrow> Error + (UpsertResult \<times> Store)" where
  "upsertTransaction sid uid event env db =
     (case map_of (events db sid) (eventId event) of
        Some existingEvent \<Rightarrow>
          (case sessions db sid of
             Some sess \<Rightarrow>
               Inr (\<lparr> UpsertResult.status = Duplicate,
                       UpsertResult.session = Some (sessionAggregates sess) \<rparr>, db)
           | None \<Rightarrow>
               Inr (\<lparr> UpsertResult.status = Duplicate, UpsertResult.session = None \<rparr>, db))
      | None \<Rightarrow>
          let sessionDoc = sessions db sid;
              existingEvents = sortByTimestamp (listDocuments (events db sid))
          in (case firstUndefined event of
                Some field \<Rightarrow> Inl (undefinedValueError field)
              | None \<Rightarrow>
                  let db1 = db\<lparr> events := (events db)
                              (sid := AList.update (eventId event) event (events db sid)) \<rparr>;
                      allEvents = existingEvents @ [event]
                  in (case computeAggregates allEvents of
                        Inl err \<Rightarrow> Inl err
                      | Inr aggs \<Rightarrow>
                          let currentVersion =
                                (case sessionDoc of
                                   Some s \<Rightarrow>
                                     (if Session.version s = 0 then 0 else Session.version s)
                                 | None \<Rightarrow> 0);
                              written =
                                (case sessionDoc of
                                   Some s \<Rightarrow>
                                     s\<lparr> Session.startTime := SessionAggregates.startTime aggs,
                                        Session.endTime := Some (SessionAggregates.endTime aggs),
                                        Session.totalDuration :=
                                          SessionAggregates.totalDuration aggs,
                                        Session.totalDistance :=
                                          SessionAggregates.totalDistance aggs,
                                        Session.totalCalories :=
                                          SessionAggregates.totalCalories aggs,
                                        Session.totalSteps := SessionAggregates.totalSteps aggs,
                                        Session.eventCount := SessionAggregates.eventCount aggs,
                                        Session.lastEventTime :=
                                          SessionAggregates.lastEventTime aggs,
                                        Session.version := currentVersion + 1,
                                        Session.updatedAt := serverTimestamp env \<rparr>
                                 | None \<Rightarrow>
                                     \<lparr> Session.userId = uid,
                                       Session.startTime = SessionAggregates.startTime aggs,
                                       Session.endTime = Some (SessionAggregates.endTime aggs),
                                       Session.totalDuration =
                                         SessionAggregates.totalDuration aggs,
                                       Session.totalDistance =
                                         SessionAggregates.totalDistance aggs,
                                       Session.totalCalories =
                                         SessionAggregates.totalCalories aggs,
                                       Session.totalSteps = SessionAggregates.totalSteps aggs,
                                       Session.eventCount = SessionAggregates.eventCount aggs,
                                       Session.lastEventTime =
                                         SessionAggregates.lastEventTime aggs,
                                       Session.version = 1,
                                       Session.createdAt = now env,
                                       Session.updatedAt = now env \<rparr>)
                          in Inr (\<lparr> UpsertResult.status = Created,
                                    UpsertResult.session = Some aggs \<rparr>,
                                  db1\<lparr> sessions := (sessions db1)(sid \<mapsto> written) \<rparr>))))"

text \<open>
  \<open>db.runTransaction\<close> belongs to the store: an attempt is either rejected with an error
  (a write conflict or any other store failure), leaving the store as it was, or the
  callback runs atomically on the current store.
\<close>

definition runTransaction ::
  "StoreFailure option \<Rightarrow> (Store \<Rightarrow> Error + ('a \<times> Store)) \<Rightarrow> Store \<Rightarrow> Error + ('a \<times> Store)" where
  "runTransaction fault callback db =
     (case fault of Some failure \<Rightarrow> Inl (thrown failure) | None \<Rightarrow> callback db)"

text \<open>What a call of \<open>upsertEventAndUpdateSession\<close> leaves behind: the value returned or
  the error thrown, the store, the delays slept between attempts (milliseconds) and the
  number of transaction attempts made.\<close>

record UpsertOutcome =
  result :: "Error + UpsertResult"
  store :: Store
  sleeps :: "nat list"
  attempts :: nat

text \<open>The \<open>for (let attempt = 0; attempt < MAX_TRANSACTION_RETRIES; attempt++)\<close> loop, from
  a given attempt on; past the loop the last error (or a fresh one) is thrown.\<close>

function upsertLoop ::
  "string \<Rightarrow> string \<Rightarrow> Event \<Rightarrow> Env \<Rightarrow> nat \<Rightarrow> Error option \<Rightarrow> nat list \<Rightarrow> Store \<Rightarrow> UpsertOutcome" where
  "upsertLoop sid uid event env attempt lastError slept db =
     (if attempt < MAX_TRANSACTION_RETRIES then
        (case runTransaction (faults env attempt) (upsertTransaction sid uid event env) db of
           Inr (r, db') \<Rightarrow>
             \<lparr> result = Inr r, store = db', sleeps = slept, attempts = attempt + 1 \<rparr>
         | Inl err \<Rightarrow>
             if attempt < MAX_TRANSACTION_RETRIES - 1 \<and> includesSub (message err) ''transaction''
             then upsertLoop sid uid event env (attempt + 1) (Some err)
                    (slept @ [2 ^ attempt * 100]) db
             else \<lparr> result = Inl err, store = db, sleeps = slept, attempts = attempt + 1 \<rparr>)
      else
        \<lparr> result = Inl (case lastError of Some err \<Rightarrow> err
                         | None \<Rightarrow> Error ''Transaction failed after retries''),
          store = db, sleeps = slept, attempts = attempt \<rparr>)"
  by pat_completeness auto
termination
  by (relation "measure (\<lambda>(sid, uid, event, env, attempt, lastError, slept, db).
                  MAX_TRANSACTION_RETRIES - attempt)") auto

declare upsertLoop.simps [simp del]

definition upsertEventAndUpdateSession ::
  "string \<Rightarrow> string \<Rightarrow> Event \<Rightarrow> Env \<Rightarrow> Store \<Rightarrow> UpsertOutcome" where
  "upsertEventAndUpdateSession sid uid event env db =
     upsertLoop sid uid event env 0 None [] db"

section \<open>Idempotency helper (\<open>helpers/idempotencyHelper.ts\<close>)\<close>

definition IDEMPOTENCY_TTL_SECONDS :: int where
  "IDEMPOTENCY_TTL_SECONDS = 24 * 60 * 60"

definition checkIdempotency :: "string \<Rightarrow> Env \<Rightarrow> Store \<Rightarrow> IdempotencyResult \<times> Store" where
  "checkIdempotency ikey env db =
     (case idempotency db ikey of
        None \<Rightarrow> (\<lparr> isDuplicate = False, cachedResponse = None \<rparr>, db)
      | Some rec \<Rightarrow>
          if toMillis (expiresAt rec) < toMillis (now env)
          then (\<lparr> isDuplicate = False, cachedResponse = None \<rparr>,
                db\<lparr> idempotency := (idempotency db)(ikey := None) \<rparr>)
          else if IdempotencyRecord.status rec = Completed
          then (\<lparr> isDuplicate = True, cachedResponse = Some (response rec) \<rparr>, db)
          else (\<lparr> isDuplicate = True, cachedResponse = None \<rparr>, db))"

definition ttlExpiry :: "Env \<Rightarrow> Timestamp" where
  "ttlExpiry env = Millis (toMillis (now env) + IDEMPOTENCY_TTL_SECONDS * 1000)"

definition markProcessing :: "string \<Rightarrow> string \<Rightarrow> Env \<Rightarrow> Store \<Rightarrow> Store" where
  "markProcessing ikey sid env db =
     db\<lparr> idempotency := (idempotency db)(ikey \<mapsto>
          \<lparr> IdempotencyRecord.sessionId = sid, IdempotencyRecord.status = Processing,
            response = EmptyObject, IdempotencyRecord.createdAt = now env,
            expiresAt = ttlExpiry env \<rparr>) \<rparr>"

text \<open>The first place of a cached object that holds \<open>undefined\<close>.\<close>

definition undefinedIn :: "JsonObject \<Rightarrow> string option" where
  "undefinedIn obj =
     (case obj of
        ResponseObject r \<Rightarrow>
          (if IngestResponse.session r = Undefined then Some ''response.session'' else None)
      | _ \<Rightarrow> None)"

text \<open>\<open>cacheResponse\<close> and \<open>markFailed\<close> write with \<open>{ merge: true }\<close>; every field of the
  record is given, so the record is replaced. The write of \<open>cacheResponse\<close> is refused
  when the response holds \<open>undefined\<close>.\<close>

definition cacheResponse ::
  "string \<Rightarrow> string \<Rightarrow> JsonObject \<Rightarrow> Env \<Rightarrow> Store \<Rightarrow> Error + Store" where
  "cacheResponse ikey sid resp env db =
     (case undefinedIn resp of
        Some field \<Rightarrow> Inl (undefinedValueError field)
      | None \<Rightarrow>
          Inr (db\<lparr> idempotency := (idempotency db)(ikey \<mapsto>
                 \<lparr> IdempotencyRecord.sessionId = sid, IdempotencyRecord.status = Completed,
                   response = resp, IdempotencyRecord.createdAt = now env,
                   expiresAt = ttlExpiry env \<rparr>) \<rparr>))"

definition markFailed :: "string \<Rightarrow> string \<Rightarrow> string \<Rightarrow> Env \<Rightarrow> Store \<Rightarrow> Store" where
  "markFailed ikey sid errorMessage env db =
     db\<lparr> idempotency := (idempotency db)(ikey \<mapsto>
          \<lparr> IdempotencyRecord.sessionId = sid, IdempotencyRecord.status = Failed,
            response = ErrorObject errorMessage, IdempotencyRecord.createdAt = now env,
            expiresAt = ttlExpiry env \<rparr>) \<rparr>"

section \<open>Validator (\<open>unnamed/part_004\<close>) and normalizer (\<open>utils/normalizer.ts\<close>)\<close>

text \<open>\<open>timestamp: string | number | Timestamp\<close> of a raw payload.\<close>

datatype RawTimestamp = TsString string | TsNumber number | TsTimestamp Timestamp

text \<open>\<open>interface RawEventPayload\<close>. The handler and the validator test the identifiers
  and the timestamp for presence, so each may be missing.\<close>

record RawEventPayload =
  eventId :: "string option"
  sessionId :: "string option"
  userId :: "string option"
  timestamp :: "RawTimestamp option"
  duration :: "number option"
  distance :: "number option"
  calories :: "number option"
  steps :: "number option"
  sequenceNumber :: "number option"
  idempotencyKey :: "string option"

record NormalizedEventPayload =
  eventId :: string
  sessionId :: string
  userId :: string
  timestamp :: Timestamp
  duration :: number
  distance :: number
  calories :: number
  steps :: number
  sequenceNumber :: "number option"

record ValidationResult =
  isValid :: bool
  errors :: "ValidationMessage list"

record ValidationConstraints =
  maxDistance :: number
  maxCalories :: number
  maxSteps :: number
  maxDuration :: number
  maxFutureOffset :: number
  maxPastOffset :: number

definition DEFAULT_CONSTRAINTS :: ValidationConstraints where
  "DEFAULT_CONSTRAINTS =
     \<lparr> maxDistance = 100000, maxCalories = 10000, maxSteps = 100000,
       maxDuration = 86400, maxFutureOffset = 3600, maxPastOffset = 2592000 \<rparr>"

definition validateTimestamp :: "Timestamp \<Rightarrow> ValidationConstraints \<Rightarrow> Env \<Rightarrow> ValidationResult" where
  "validateTimestamp ts constraints env =
     (let timestampMillis = toMillis ts;
          nowMillis = toMillis (now env);
          futureOffset = of_int (timestampMillis - nowMillis) / 1000;
          errs1 = (if futureOffset > maxFutureOffset constraints
                   then [TimestampTooFarInFuture futureOffset (maxFutureOffset constraints)]
                   else []);
          pastOffset = of_int (nowMillis - timestampMillis) / 1000;
          errs2 = (if pastOffset > maxPastOffset constraints
                   then errs1 @ [TimestampTooFarInPast pastOffset (maxPastOffset constraints)]
                   else errs1)
      in \<lparr> isValid = (length errs2 = 0), errors = errs2 \<rparr>)"

text \<open>\<open>Number.isInteger\<close>.\<close>

definition isInteger :: "number \<Rightarrow> bool" where
  "isInteger x = (of_int \<lfloor>x\<rfloor> = x)"

definition validateMetrics :: "RawEventPayload \<Rightarrow> ValidationConstraints \<Rightarrow> ValidationResult" where
  "validateMetrics payload constraints =
     (let errs1 =
            (case RawEventPayload.distance payload of
               None \<Rightarrow> []
             | Some d \<Rightarrow>
                 if d < 0 then [DistanceNegative]
                 else if d > maxDistance constraints
                 then [DistanceExceedsMaximum d (maxDistance constraints)]
                 else []);
          errs2 =
            (case RawEventPayload.calories payload of
               None \<Rightarrow> errs1
             | Some c \<Rightarrow>
                 if c < 0 then errs1 @ [CaloriesNegative]
                 else if c > maxCalories constraints
                 then errs1 @ [CaloriesExceedsMaximum c (maxCalories constraints)]
                 else errs1);
          errs3 =
            (case RawEventPayload.steps payload of
               None \<Rightarrow> errs2
             | Some n \<Rightarrow>
                 if n < 0 then errs2 @ [StepsNegative]
                 else if \<not> isInteger n then errs2 @ [StepsNotInteger]
                 else if n > maxSteps constraints
                 then errs2 @ [StepsExceedsMaximum n (maxSteps constraints)]
                 else errs2);
          errs4 =
            (case RawEventPayload.duration payload of
               None \<Rightarrow> errs3
             | Some d \<Rightarrow>
                 if d < 0 then errs3 @ [DurationNegative]
                 else if d > maxDuration constraints
                 then errs3 @ [DurationExceedsMaximum d (maxDuration constraints)]
                 else errs3)
      in \<lparr> isValid = (length errs4 = 0), errors = errs4 \<rparr>)"

text \<open>A numeric timestamp is taken in whole milliseconds, the resolution of \<open>toMillis\<close>;
  \<open>new Date(string)\<close> is the environment's parser.\<close>

definition normalizeTimestamp :: "Env \<Rightarrow> RawTimestamp \<Rightarrow> Error + Timestamp" where
  "normalizeTimestamp env raw =
     (case raw of
        TsTimestamp t \<Rightarrow> Inr t
      | TsNumber n \<Rightarrow> Inr (Millis \<lfloor>n\<rfloor>)
      | TsString str \<Rightarrow>
          (case parseDate env str of
             None \<Rightarrow> Inl (Error (''Invalid timestamp string: '' @ str))
           | Some ms \<Rightarrow> Inr (Millis ms)))"

text \<open>Truthiness of an optional string (\<open>undefined\<close> and the empty string are falsy) and
  of an optional raw timestamp (also \<open>0\<close> is falsy).\<close>

definition truthy :: "string option \<Rightarrow> bool" where
  "truthy v = (case v of None \<Rightarrow> False | Some str \<Rightarrow> str \<noteq> [])"

definition truthyTimestamp :: "RawTimestamp option \<Rightarrow> bool" where
  "truthyTimestamp v =
     (case v of
        None \<Rightarrow> False
      | Some (TsString str) \<Rightarrow> str \<noteq> []
      | Some (TsNumber n) \<Rightarrow> n \<noteq> 0
      | Some (TsTimestamp t) \<Rightarrow> True)"

definition validatePayload :: "RawEventPayload \<Rightarrow> ValidationConstraints \<Rightarrow> Env \<Rightarrow> ValidationResult" where
  "validatePayload payload constraints env =
     (let errs1 = (if \<not> truthy (RawEventPayload.eventId payload) then [EventIdRequired] else []);
          errs2 = (if \<not> truthy (RawEventPayload.sessionId payload)
                   then errs1 @ [SessionIdRequired] else errs1);
          errs3 = (if \<not> truthy (RawEventPayload.userId payload)
                   then errs2 @ [UserIdRequired] else errs2);
          errs4 = (if \<not> truthyTimestamp (RawEventPayload.timestamp payload)
                   then errs3 @ [TimestampRequired] else errs3);
          errs5 =
            (case RawEventPayload.timestamp payload of
               None \<Rightarrow> errs4
             | Some raw \<Rightarrow>
                 if truthyTimestamp (Some raw) then
                   (case normalizeTimestamp env raw of
                      Inl err \<Rightarrow> errs4 @ [InvalidTimestampFormat err]
                    | Inr ts \<Rightarrow>
                        let timestampValidation = validateTimestamp ts constraints env
                        in if \<not> isValid timestampValidation
                           then errs4 @ ValidationResult.errors timestampValidation
                           else errs4)
                 else errs4);
          metricsValidation = validateMetrics payload constraints;
          errs6 = (if \<not> isValid metricsValidation
                   then errs5 @ ValidationResult.errors metricsValidation
                   else errs5)
      in \<lparr> isValid = (length errs6 = 0), errors = errs6 \<rparr>)"

text \<open>\<open>normalizePayload\<close> throws when the timestamp cannot be normalized. It is only
  called on a payload that passed \<open>validatePayload\<close>, whose identifiers are present; a
  missing identifier is carried on as the empty string here.\<close>

definition normalizePayload :: "RawEventPayload \<Rightarrow> Env \<Rightarrow> Error + NormalizedEventPayload" where
  "normalizePayload payload env =
     (case (case RawEventPayload.timestamp payload of
              None \<Rightarrow> Inl (Error ''Unsupported timestamp type: undefined'')
            | Some raw \<Rightarrow> normalizeTimestamp env raw) of
        Inl err \<Rightarrow> Inl err
      | Inr ts \<Rightarrow>
          Inr \<lparr> NormalizedEventPayload.eventId =
                  (case RawEventPayload.eventId payload of None \<Rightarrow> [] | Some v \<Rightarrow> v),
                NormalizedEventPayload.sessionId =
                  (case RawEventPayload.sessionId payload of None \<Rightarrow> [] | Some v \<Rightarrow> v),
                NormalizedEventPayload.userId =
                  (case RawEventPayload.userId payload of None \<Rightarrow> [] | Some v \<Rightarrow> v),
                NormalizedEventPayload.timestamp = ts,
                NormalizedEventPayload.duration =
                  (case RawEventPayload.duration payload of None \<Rightarrow> 0 | Some v \<Rightarrow> v),
                NormalizedEventPayload.distance =
                  (case RawEventPayload.distance payload of None \<Rightarrow> 0 | Some v \<Rightarrow> v),
                NormalizedEventPayload.calories =
                  (case RawEventPayload.calories payload of None \<Rightarrow> 0 | Some v \<Rightarrow> v),
                NormalizedEventPayload.steps =
                  (case RawEventPayload.steps payload of None \<Rightarrow> 0 | Some v \<Rightarrow> v),
                NormalizedEventPayload.sequenceNumber =
                  RawEventPayload.sequenceNumber payload \<rparr>)"

section \<open>Ingest handler (\<open>ingestSessionEvent\<close>, second part of \<open>types/idempotency.ts\<close>)\<close>

record IngestRequest =
  headers :: "string \<rightharpoonup> string"
  body :: RawEventPayload

text \<open>\<open>res.status(code).json(payload)\<close>.\<close>

record HttpReply =
  statusCode :: nat
  json :: JsonObject

text \<open>\<open>a || b\<close> on optional strings.\<close>

definition orElse :: "string option \<Rightarrow> string option \<Rightarrow> string option" where
  "orElse a b = (if truthy a then a else b)"

definition extractIdempotencyKey :: "IngestRequest \<Rightarrow> string option" where
  "extractIdempotencyKey req =
     orElse (orElse (headers req ''idempotency-key'') (idempotencyKey (body req)))
            (RawEventPayload.eventId (body req))"

definition missingKeyReply :: HttpReply where
  "missingKeyReply =
     \<lparr> statusCode = 400,
       json = ResponseObject
         \<lparr> success = False, IngestResponse.session = Absent,
           error = Some ''Idempotency key is required (header: idempotency-key or body: idempotencyKey/eventId)'',
           IngestResponse.errors = None \<rparr> \<rparr>"

definition successResponse :: "string \<Rightarrow> UpsertResult \<Rightarrow> IngestResponse" where
  "successResponse sid res =
     \<lparr> success = True,
       IngestResponse.session =
         (case UpsertResult.session res of
            None \<Rightarrow> Undefined
          | Some aggs \<Rightarrow>
              Present \<lparr> SessionInfo.sessionId = sid,
                        aggregates =
                          \<lparr> AggregateTotals.totalDuration = SessionAggregates.totalDuration aggs,
                            AggregateTotals.totalDistance = SessionAggregates.totalDistance aggs,
                            AggregateTotals.totalCalories = SessionAggregates.totalCalories aggs,
                            AggregateTotals.totalSteps = SessionAggregates.totalSteps aggs,
                            AggregateTotals.eventCount = SessionAggregates.eventCount aggs \<rparr> \<rparr>),
       error = None,
       IngestResponse.errors = None \<rparr>"

text \<open>Step 6 of the handler, the event object. The numbers of a request body are the
  doubles the body was parsed to, each given by its value.\<close>

definition eventObject :: "NormalizedEventPayload \<Rightarrow> Env \<Rightarrow> Event" where
  "eventObject normalized env =
     \<lparr> Event.eventId = NormalizedEventPayload.eventId normalized,
       Event.timestamp = NormalizedEventPayload.timestamp normalized,
       Event.duration = Some (Finite (NormalizedEventPayload.duration normalized)),
       Event.distance = Some (Finite (NormalizedEventPayload.distance normalized)),
       Event.calories = Some (Finite (NormalizedEventPayload.calories normalized)),
       Event.steps = Some (Finite (NormalizedEventPayload.steps normalized)),
       Event.sequenceNumber = NormalizedEventPayload.sequenceNumber normalized,
       ingestedAt = now env,
       Event.version = 1 \<rparr>"

text \<open>The \<open>catch\<close> block of the handler: the key is marked failed when the session id is
  known (\<open>if (idempotencyKey && sessionId)\<close>), and the answer is 500 with the message.\<close>

definition catchBlock ::
  "string \<Rightarrow> string option \<Rightarrow> Error \<Rightarrow> Env \<Rightarrow> Store \<Rightarrow> HttpReply \<times> Store" where
  "catchBlock ikey sessionIdOrNull err env db =
     (\<lparr> statusCode = 500,
        json = ResponseObject
          \<lparr> success = False, IngestResponse.session = Absent,
            error = Some (message err), IngestResponse.errors = None \<rparr> \<rparr>,
      (case sessionIdOrNull of
         None \<Rightarrow> db
       | Some sid \<Rightarrow> if sid \<noteq> [] then markFailed ikey sid (message err) env db else db))"

text \<open>
  Steps 2 to 11 of the handler, for a key that passed the missing-key test. Logging and
  metrics are observers and are left out. The errors caught are the ones
  \<open>normalizePayload\<close>, the upsert and \<open>cacheResponse\<close> throw; the other reads and writes
  of the idempotency collection are taken to succeed.
\<close>

definition processWithKey :: "string \<Rightarrow> Env \<Rightarrow> IngestRequest \<Rightarrow> Store \<Rightarrow> HttpReply \<times> Store" where
  "processWithKey ikey env req db =
     (let (idempotencyResult, db1) = checkIdempotency ikey env db
      in case (if isDuplicate idempotencyResult then cachedResponse idempotencyResult else None) of
           Some cached \<Rightarrow> (\<lparr> statusCode = 200, json = cached \<rparr>, db1)
         | None \<Rightarrow>
             let validationResult = validatePayload (body req) DEFAULT_CONSTRAINTS env
             in if \<not> isValid validationResult
                then (\<lparr> statusCode = 400,
                        json = ResponseObject
                          \<lparr> success = False, IngestResponse.session = Absent, error = None,
                            IngestResponse.errors =
                              Some (ValidationResult.errors validationResult) \<rparr> \<rparr>, db1)
                else
                  (case normalizePayload (body req) env of
                     Inl err \<Rightarrow> catchBlock ikey None err env db1
                   | Inr normalized \<Rightarrow>
                       let sid = NormalizedEventPayload.sessionId normalized;
                           uid = NormalizedEventPayload.userId normalized;
                           db2 = markProcessing ikey sid env db1;
                           event = eventObject normalized env;
                           outcome = upsertEventAndUpdateSession sid uid event env db2
                       in (case result outcome of
                             Inl err \<Rightarrow> catchBlock ikey (Some sid) err env (store outcome)
                           | Inr res \<Rightarrow>
                               if UpsertResult.status res = Duplicate
                               then
                                 (let resp = successResponse sid res
                                  in case cacheResponse ikey sid (ResponseObject resp) env
                                            (store outcome) of
                                       Inl err \<Rightarrow>
                                         catchBlock ikey (Some sid) err env (store outcome)
                                     | Inr db3 \<Rightarrow>
                                         (\<lparr> statusCode = 200, json = ResponseObject resp \<rparr>,
                                          db3))
                               else
                                 (let resp = successResponse sid res
                                  in case cacheResponse ikey sid (ResponseObject resp) env
                                            (store outcome) of
                                       Inl err \<Rightarrow>
                                         catchBlock ikey (Some sid) err env (store outcome)
                                     | Inr db3 \<Rightarrow>
                                         (\<lparr> statusCode = 200, json = ResponseObject resp \<rparr>,
                                          db3)))))"

definition ingestSessionEvent :: "Env \<Rightarrow> IngestRequest \<Rightarrow> Store \<Rightarrow> HttpReply \<times> Store" where
  "ingestSessionEvent env req db =
     (let ikey = extractIdempotencyKey req
      in if \<not> truthy ikey then (missingKeyReply, db)
         else processWithKey (case ikey of None \<Rightarrow> [] | Some k \<Rightarrow> k) env req db)"

section \<open>Vocabulary of the claims\<close>

text \<open>A conflict-class failure, in the words of the specification: a failure attributable
  to concurrent modification of the same transactional scope.\<close>

definition conflictClass :: "StoreFailure \<Rightarrow> bool" where
  "conflictClass failure = (cause failure = ConcurrentModification)"

text \<open>What the loop of the upsert coordinator leaves behind when the callback of an
  attempt ran to its end: the value it returned with the store it wrote, or the error it
  threw with the store untouched.\<close>

definition attemptOutcome ::
  "Error + (UpsertResult \<times> Store) \<Rightarrow> Store \<Rightarrow> nat list \<Rightarrow> nat \<Rightarrow> UpsertOutcome" where
  "attemptOutcome b db slept n =
     (case b of
        Inr (r, db') \<Rightarrow> \<lparr> result = Inr r, store = db', sleeps = slept, attempts = n \<rparr>
      | Inl err \<Rightarrow> \<lparr> result = Inl err, store = db, sleeps = slept, attempts = n \<rparr>)"

text \<open>A key whose record is replayed: the record is present, unexpired and completed.\<close>

definition replayable :: "Env \<Rightarrow> Store \<Rightarrow> string \<Rightarrow> bool" where
  "replayable env db ikey =
     (case idempotency db ikey of
        None \<Rightarrow> False
      | Some rec \<Rightarrow>
          \<not> toMillis (expiresAt rec) < toMillis (now env)
          \<and> IdempotencyRecord.status rec = Completed)"

text \<open>The documents of a session's event collection.\<close>

definition storedEvents :: "Store \<Rightarrow> string \<Rightarrow> Event list" where
  "storedEvents db sid = map snd (events db sid)"

text \<open>The exact value of a measure, an undefined one counting 0.\<close>

definition measureValue :: "double option \<Rightarrow> rat" where
  "measureValue m = (case m of Some (Finite v) \<Rightarrow> v | _ \<Rightarrow> 0)"

text \<open>A measure that is undefined or a non-negative whole number.\<close>

definition wholeMeasure :: "double option \<Rightarrow> bool" where
  "wholeMeasure m =
     (case m of None \<Rightarrow> True | Some (Finite v) \<Rightarrow> 0 \<le> v \<and> v \<in> \<int> | Some _ \<Rightarrow> False)"

text \<open>Events whose measures add up without rounding in any order: every measure is
  undefined or a non-negative whole number, and each exact total is at most \<open>2 ^ 53\<close>.\<close>

definition exactlySummable :: "Event list \<Rightarrow> bool" where
  "exactlySummable evs =
     (list_all (\<lambda>e. wholeMeasure (Event.duration e) \<and> wholeMeasure (Event.distance e)
                   \<and> wholeMeasure (Event.calories e) \<and> wholeMeasure (Event.steps e)) evs
      \<and> (\<Sum>e\<leftarrow>evs. measureValue (Event.duration e)) \<le> 2 ^ 53
      \<and> (\<Sum>e\<leftarrow>evs. measureValue (Event.distance e)) \<le> 2 ^ 53
      \<and> (\<Sum>e\<leftarrow>evs. measureValue (Event.calories e)) \<le> 2 ^ 53
      \<and> (\<Sum>e\<leftarrow>evs. measureValue (Event.steps e)) \<le> 2 ^ 53)"

text \<open>The double precision sum of a list of measures, added from left to right starting
  at 0, an undefined or NaN measure counting 0.\<close>

definition measureOrZero :: "double option \<Rightarrow> double" where
  "measureOrZero m = (case m of None \<Rightarrow> Finite 0 | Some NaN \<Rightarrow> Finite 0 | Some v \<Rightarrow> v)"

definition doubleSum :: "double option list \<Rightarrow> double" where
  "doubleSum ms = foldl fadd (Finite 0) (map measureOrZero ms)"

text \<open>
  The parts of the session invariant of the data model: the count and the time span of the
  record are those of the given events; its totals are the double precision sums over the
  given list, in the order of the list; its totals are the exact sums.
\<close>

definition countAndSpanOver :: "Session \<Rightarrow> Event list \<Rightarrow> bool" where
  "countAndSpanOver sess evs =
     (Session.eventCount sess = length evs
      \<and> Session.startTime sess = Millis (Min ((\<lambda>e. toMillis (Event.timestamp e)) ` set evs))
      \<and> Session.endTime sess = Some (Millis (Max ((\<lambda>e. toMillis (Event.timestamp e)) ` set evs)))
      \<and> Session.lastEventTime sess
          = Millis (Max ((\<lambda>e. toMillis (Event.timestamp e)) ` set evs)))"

definition totalsFoldedOver :: "Session \<Rightarrow> Event list \<Rightarrow> bool" where
  "totalsFoldedOver sess evs =
     (Session.totalDuration sess = doubleSum (map Event.duration evs)
      \<and> Session.totalDistance sess = doubleSum (map Event.distance evs)
      \<and> Session.totalCalories sess = doubleSum (map Event.calories evs)
      \<and> Session.totalSteps sess = doubleSum (map Event.steps evs))"

definition totalsExactOver :: "Session \<Rightarrow> Event list \<Rightarrow> bool" where
  "totalsExactOver sess evs =
     (Session.totalDuration sess = Finite (\<Sum>e\<leftarrow>evs. measureValue (Event.duration e))
      \<and> Session.totalDistance sess = Finite (\<Sum>e\<leftarrow>evs. measureValue (Event.distance e))
      \<and> Session.totalCalories sess = Finite (\<Sum>e\<leftarrow>evs. measureValue (Event.calories e))
      \<and> Session.totalSteps sess = Finite (\<Sum>e\<leftarrow>evs. measureValue (Event.steps e)))"

text \<open>The states of the store reachable from the empty store by requests to the handler
  and by calls of the upsert coordinator.\<close>

inductive reachable :: "Store \<Rightarrow> bool" where
  reachable_empty: "reachable emptyStore"
| reachable_upsert:
    "reachable db \<Longrightarrow> reachable (store (upsertEventAndUpdateSession sid uid ev env db))"
| reachable_ingest:
    "reachable db \<Longrightarrow> reachable (snd (ingestSessionEvent env req db))"

text \<open>\<open>submitted sid db evs db'\<close>: the events \<open>evs\<close> were submitted for session \<open>sid\<close> one
  after the other, in list order, each by an upsert that returned (whoever the user, whatever
  the clock and whatever failures were retried), taking the store from \<open>db\<close> to \<open>db'\<close>.\<close>

inductive submitted :: "string \<Rightarrow> Store \<Rightarrow> Event list \<Rightarrow> Store \<Rightarrow> bool" where
  submitted_none: "submitted sid db [] db"
| submitted_next:
    "result (upsertEventAndUpdateSession sid uid ev env db) = Inr r
       \<Longrightarrow> submitted sid (store (upsertEventAndUpdateSession sid uid ev env db)) evs db'
       \<Longrightarrow> submitted sid db (ev # evs) db'"

section \<open>Example data\<close>

text \<open>The three events of the aggregate helper's unit test, with sequence numbers.\<close>

definition e1 :: Event where
  "e1 = \<lparr> Event.eventId = ''e1'', Event.timestamp = Millis 100,
         Event.duration = Some (Finite 10), Event.distance = Some (Finite 100),
         Event.calories = Some (Finite 10), Event.steps = Some (Finite 100),
         Event.sequenceNumber = Some 1, ingestedAt = Millis 1000, Event.version = 1 \<rparr>"

definition e2 :: Event where
  "e2 = \<lparr> Event.eventId = ''e2'', Event.timestamp = Millis 200,
         Event.duration = Some (Finite 20), Event.distance = Some (Finite 200),
         Event.calories = Some (Finite 20), Event.steps = Some (Finite 200),
         Event.sequenceNumber = Some 2, ingestedAt = Millis 1000, Event.version = 1 \<rparr>"

definition e3 :: Event where
  "e3 = \<lparr> Event.eventId = ''e3'', Event.timestamp = Millis 300,
         Event.duration = Some (Finite 30), Event.distance = Some (Finite 300),
         Event.calories = Some (Finite 30), Event.steps = Some (Finite 300),
         Event.sequenceNumber = Some 3, ingestedAt = Millis 1000, Event.version = 1 \<rparr>"

text \<open>Three events with one and the same timestamp whose distances, all doubles within the
  validated range, do not add up exactly: 65536 and twice \<open>1 / 2 ^ 37\<close>, which is half the
  spacing of the doubles at 65536.\<close>

definition halfSpacing :: rat where
  "halfSpacing = 1 / 2 ^ 37"

definition tieA :: Event where
  "tieA = \<lparr> Event.eventId = ''a'', Event.timestamp = Millis 100,
           Event.duration = Some (Finite 1), Event.distance = Some (Finite 65536),
           Event.calories = Some (Finite 1), Event.steps = Some (Finite 1),
           Event.sequenceNumber = Some 1, ingestedAt = Millis 1000, Event.version = 1 \<rparr>"

definition tieB :: Event where
  "tieB = \<lparr> Event.eventId = ''b'', Event.timestamp = Millis 100,
           Event.duration = Some (Finite 1), Event.distance = Some (Finite halfSpacing),
           Event.calories = Some (Finite 1), Event.steps = Some (Finite 1),
           Event.sequenceNumber = Some 2, ingestedAt = Millis 1000, Event.version = 1 \<rparr>"

definition tieC :: Event where
  "tieC = \<lparr> Event.eventId = ''c'', Event.timestamp = Millis 100,
           Event.duration = Some (Finite 1), Event.distance = Some (Finite halfSpacing),
           Event.calories = Some (Finite 1), Event.steps = Some (Finite 1),
           Event.sequenceNumber = Some 3, ingestedAt = Millis 1000, Event.version = 1 \<rparr>"

text \<open>Environments: a store that never fails, and one whose first transaction attempt is
  rejected for contention, with the error text of the store.\<close>

definition envNoFaults :: Env where
  "envNoFaults = \<lparr> now = Millis 1000, serverTimestamp = Millis 1001,
                   faults = (\<lambda>_. None), parseDate = (\<lambda>_. None) \<rparr>"

definition contention :: StoreFailure where
  "contention =
     \<lparr> cause = ConcurrentModification,
       thrown = Error ''10 ABORTED: Too much contention on these documents. Please try again.'' \<rparr>"

definition envContention :: Env where
  "envContention = envNoFaults\<lparr> faults := (\<lambda>n. if n = 0 then Some contention else None) \<rparr>"

text \<open>A session holding the first event, and the submission of a list of events one after
  the other.\<close>

definition sessionWithE1 :: Session where
  "sessionWithE1 =
     \<lparr> Session.userId = ''u1'', Session.startTime = Millis 100,
       Session.endTime = Some (Millis 100), Session.totalDuration = Finite 10,
       Session.totalDistance = Finite 100, Session.totalCalories = Finite 10,
       Session.totalSteps = Finite 100, Session.eventCount = 1,
       Session.lastEventTime = Millis 100, Session.version = 1,
       Session.createdAt = Millis 1000, Session.updatedAt = Millis 1000 \<rparr>"

definition storeWithE1 :: Store where
  "storeWithE1 =
     \<lparr> sessions = [''s1'' \<mapsto> sessionWithE1],
       events = (\<lambda>_. [])(''s1'' := [(''e1'', e1)]),
       idempotency = Map.empty \<rparr>"

definition submitAll :: "string \<Rightarrow> string \<Rightarrow> Env \<Rightarrow> Store \<Rightarrow> Event list \<Rightarrow> Store" where
  "submitAll sid uid env db evs =
     foldl (\<lambda>d ev. store (upsertEventAndUpdateSession sid uid ev env d)) db evs"

text \<open>Idempotency records, a valid payload for the first event, and requests carrying
  it with and without an idempotency key.\<close>

definition completedRecord :: IdempotencyRecord where
  "completedRecord =
     \<lparr> IdempotencyRecord.sessionId = ''s1'', IdempotencyRecord.status = Completed,
       response = ResponseObject
         \<lparr> success = True, IngestResponse.session = Absent, error = None,
           IngestResponse.errors = None \<rparr>,
       IdempotencyRecord.createdAt = Millis 0, expiresAt = Millis 86400000 \<rparr>"

definition storeCompletedKey :: Store where
  "storeCompletedKey = emptyStore\<lparr> idempotency := [''k1'' \<mapsto> completedRecord] \<rparr>"

definition failedRecord :: IdempotencyRecord where
  "failedRecord =
     \<lparr> IdempotencyRecord.sessionId = ''s1'', IdempotencyRecord.status = Failed,
       response = ErrorObject ''UNAVAILABLE'',
       IdempotencyRecord.createdAt = Millis 0, expiresAt = Millis 86400000 \<rparr>"

definition storeFailedKey :: Store where
  "storeFailedKey = emptyStore\<lparr> idempotency := [''k1'' \<mapsto> failedRecord] \<rparr>"

definition payloadE1 :: RawEventPayload where
  "payloadE1 =
     \<lparr> RawEventPayload.eventId = Some ''e1'', RawEventPayload.sessionId = Some ''s1'',
       RawEventPayload.userId = Some ''u1'', RawEventPayload.timestamp = Some (TsNumber 100),
       RawEventPayload.duration = Some 10, RawEventPayload.distance = Some 100,
       RawEventPayload.calories = Some 10, RawEventPayload.steps = Some 100,
       RawEventPayload.sequenceNumber = Some 1, idempotencyKey = None \<rparr>"

definition reqNoKey :: IngestRequest where
  "reqNoKey = \<lparr> headers = Map.empty, body = payloadE1 \<rparr>"

definition reqE1 :: IngestRequest where
  "reqE1 = \<lparr> headers = [''idempotency-key'' \<mapsto> ''k1''], body = payloadE1 \<rparr>"

section \<open>Facts about the numbers\<close>

lemma roundHalfEven_of_int [simp]: "roundHalfEven (of_int k) = k"
  by (simp add: roundHalfEven_def)

lemma log2floor_of_int:
  assumes "0 < n"
  shows "log2floor (of_int n) = bitlen n - 1"
proof -
  have q: "quotient_of (of_int n) = (n, 1)" by simp
  have b1: "bitlen 1 = 1" by (simp add: bitlen_alt_def)
  have ge: "1 \<le> bitlen n" using assms by (simp add: bitlen_alt_def)
  have "(2::int) ^ nat (bitlen n - 1) \<le> n" using bitlen_bounds [OF assms] by simp
  then have "of_int ((2::int) ^ nat (bitlen n - 1)) \<le> (of_int n :: rat)"
    by (simp only: of_int_le_iff)
  then have "(2::rat) powi (bitlen n - 1) \<le> of_int n"
    using ge by (simp add: power_int_def)
  then show ?thesis
    unfolding log2floor_def q by (simp add: b1)
qed

lemma roundDouble_exact:
  assumes "0 < x" and "x / 2 powi (max (log2floor x - 52) (- 1074)) = of_int m"
    and "x < 2 powi 1024"
  shows "roundDouble x = Finite x"
proof -
  let ?c = "(2::rat) powi (max (log2floor x - 52) (- 1074))"
  have c: "?c \<noteq> 0" by simp
  have r: "of_int m * ?c = x" using assms(2) c by (metis nonzero_divide_eq_eq)
  have a: "\<bar>x\<bar> = x" using assms(1) by simp
  have n: "\<not> 2 powi 1024 \<le> x" using assms(3) by simp
  have z: "x \<noteq> 0" using assms(1) by simp
  show ?thesis
    unfolding roundDouble_def Let_def a
    by (simp only: assms(2) roundHalfEven_of_int r n z assms(1) if_False if_True)
qed

lemma roundDouble_of_int:
  assumes "0 \<le> n" "n \<le> 2 ^ 53"
  shows "roundDouble (of_int n) = Finite (of_int n)"
proof (cases "n = 0")
  case True
  then show ?thesis by (simp add: roundDouble_def)
next
  case False
  then have pos: "0 < n" using assms(1) by simp
  define e where "e = bitlen n - 1"
  have e0: "0 \<le> e" using pos by (simp add: e_def bitlen_alt_def)
  have lo: "(2::int) ^ nat e \<le> n" using bitlen_bounds [OF pos] by (simp add: e_def)
  then have h: "(2::int) ^ nat e \<le> 2 ^ 53" using assms(2) by simp
  have "nat e \<le> 53" by (rule power_le_imp_le_exp [OF _ h]) simp
  then have e53: "e \<le> 53" by simp
  have lf: "log2floor (of_int n) = e"
    using log2floor_of_int [OF pos] by (simp add: e_def)
  have small: "(of_int n :: rat) < 2 powi 1024"
  proof -
    have "n < 2 ^ 1024" using assms(2) by (rule le_less_trans) simp
    then have "(of_int n :: rat) < of_int (2 ^ 1024)" by (simp only: of_int_less_iff)
    then show ?thesis by (simp add: power_int_def)
  qed
  have px: "(0::rat) < of_int n" using pos by simp
  have "\<exists>m. (of_int n :: rat) / 2 powi (max (e - 52) (- 1074)) = of_int m"
  proof (cases "e \<le> 52")
    case True
    define k where "k = nat (52 - e)"
    have q: "max (e - 52) (- 1074) = - int k" using True e0 by (simp add: k_def)
    have "(of_int n :: rat) / 2 powi (- int k) = of_int (n * 2 ^ k)"
      by (simp add: power_int_minus divide_inverse)
    then show ?thesis unfolding q by blast
  next
    case False
    then have e: "e = 53" using e53 by simp
    then have "(2::int) ^ 53 \<le> n" using lo by simp
    then have n: "n = 2 ^ 53" using assms(2) by simp
    have q: "max (e - 52) (- 1074) = 1" using e by simp
    have "(of_int n :: rat) / 2 powi 1 = of_int (2 ^ 52)"
      by (simp add: n)
    then show ?thesis unfolding q by blast
  qed
  then obtain m where m: "(of_int n :: rat) / 2 powi (max (e - 52) (- 1074)) = of_int m" ..
  show ?thesis
    by (rule roundDouble_exact [OF px _ small, of m]) (simp only: lf m)
qed

lemma fadd_whole:
  assumes "0 \<le> a" "a \<in> \<int>" "0 \<le> b" "b \<in> \<int>" "a + b \<le> 2 ^ 53"
  shows "fadd (Finite a) (Finite b) = Finite (a + b)"
proof -
  have "a + b \<in> \<int>" using assms(2,4) by simp
  then obtain n :: int where n: "a + b = of_int n" by (auto elim: Ints_cases)
  have "(0::rat) \<le> of_int n" using assms(1,3) unfolding n [symmetric] by simp
  then have n0: "0 \<le> n" by simp
  have "(of_int n :: rat) \<le> of_int (2 ^ 53)" using assms(5) unfolding n by simp
  then have n53: "n \<le> 2 ^ 53" by (simp only: of_int_le_iff)
  show ?thesis using roundDouble_of_int [OF n0 n53] by (simp add: n)
qed

section \<open>Facts about the aggregate helper\<close>

lemma sum_numbers_doubleSum: "sum_numbers ms = doubleSum ms"
proof -
  have "orZero = measureOrZero"
    by (rule ext) (simp add: orZero_def measureOrZero_def split: option.splits double.splits)
  then show ?thesis
    by (simp add: sum_numbers_def doubleSum_def foldl_map)
qed

lemma measureValue_nonneg: "wholeMeasure m \<Longrightarrow> 0 \<le> measureValue m"
  by (auto simp add: wholeMeasure_def measureValue_def split: option.splits double.splits)

lemma sum_measureValue_nonneg:
  "list_all wholeMeasure ms \<Longrightarrow> 0 \<le> sum_list (map measureValue ms)"
  by (induction ms) (simp_all add: measureValue_nonneg)

lemma measureOrZero_whole: "wholeMeasure m \<Longrightarrow> measureOrZero m = Finite (measureValue m)"
  by (auto simp add: wholeMeasure_def measureValue_def measureOrZero_def
      split: option.splits double.splits)

lemma measureValue_Ints: "wholeMeasure m \<Longrightarrow> measureValue m \<in> \<int>"
  by (auto simp add: wholeMeasure_def measureValue_def split: option.splits double.splits)

lemma foldl_fadd_whole:
  assumes "list_all wholeMeasure ms" "0 \<le> a" "a \<in> \<int>"
    and "a + sum_list (map measureValue ms) \<le> 2 ^ 53"
  shows "foldl fadd (Finite a) (map measureOrZero ms)
         = Finite (a + sum_list (map measureValue ms))"
  using assms
proof (induction ms arbitrary: a)
  case Nil
  then show ?case by simp
next
  case (Cons m ms)
  let ?v = "measureValue m"
  have wm: "wholeMeasure m" and wms: "list_all wholeMeasure ms" using Cons.prems(1) by simp_all
  have v0: "0 \<le> ?v" using wm by (rule measureValue_nonneg)
  have vi: "?v \<in> \<int>" using wm by (rule measureValue_Ints)
  have rest0: "0 \<le> sum_list (map measureValue ms)" using wms by (rule sum_measureValue_nonneg)
  have le: "a + ?v \<le> 2 ^ 53" using Cons.prems(4) rest0 by simp
  have step: "fadd (Finite a) (measureOrZero m) = Finite (a + ?v)"
    unfolding measureOrZero_whole [OF wm] by (rule fadd_whole [OF Cons.prems(2,3) v0 vi le])
  have a0: "0 \<le> a + ?v" using Cons.prems(2) v0 by simp
  have ai: "a + ?v \<in> \<int>" using Cons.prems(3) vi by simp
  have le': "(a + ?v) + sum_list (map measureValue ms) \<le> 2 ^ 53"
    using Cons.prems(4) by (simp add: add.assoc)
  have "foldl fadd (Finite a) (map measureOrZero (m # ms))
          = foldl fadd (fadd (Finite a) (measureOrZero m)) (map measureOrZero ms)"
    by (simp only: list.map foldl_Cons)
  also have "\<dots> = Finite ((a + ?v) + sum_list (map measureValue ms))"
    unfolding step by (rule Cons.IH [OF wms a0 ai le'])
  finally show ?case by (simp add: add.assoc)
qed

lemma doubleSum_exact:
  assumes "list_all wholeMeasure ms" "sum_list (map measureValue ms) \<le> 2 ^ 53"
  shows "doubleSum ms = Finite (sum_list (map measureValue ms))"
  using foldl_fadd_whole [OF assms(1), of 0] assms(2) by (simp add: doubleSum_def)

lemma mset_sortByTimestamp [simp]: "mset (sortByTimestamp evs) = mset evs"
  by (simp add: sortByTimestamp_def)

lemma length_sortByTimestamp [simp]: "length (sortByTimestamp evs) = length evs"
  by (simp add: sortByTimestamp_def)

lemma set_sortByTimestamp [simp]: "set (sortByTimestamp evs) = set evs"
  by (simp add: sortByTimestamp_def)

lemma sorted_sortByTimestamp:
  "sorted (map (\<lambda>e. toMillis (Event.timestamp e)) (sortByTimestamp evs))"
  by (simp add: sortByTimestamp_def)

lemma sum_list_mset_cong:
  fixes f :: "'a \<Rightarrow> rat"
  assumes "mset xs = mset ys"
  shows "sum_list (map f xs) = sum_list (map f ys)"
proof -
  have "sum_mset (mset (map f xs)) = sum_mset (mset (map f ys))" using assms by simp
  then show ?thesis by (simp only: sum_mset_sum_list)
qed

lemma sorted_first_is_Min:
  fixes ks :: "int list"
  assumes "sorted ks" "ks \<noteq> []"
  shows "ks ! 0 = Min (set ks)"
proof -
  obtain k rest where ks: "ks = k # rest" using assms(2) by (cases ks) auto
  have "\<forall>x\<in>set ks. k \<le> x" using assms(1) ks by auto
  then have "Min (set ks) = k" using ks by (intro Min_eqI) auto
  then show ?thesis using ks by simp
qed

lemma sorted_last_is_Max:
  fixes ks :: "int list"
  assumes "sorted ks" "ks \<noteq> []"
  shows "ks ! (length ks - 1) = Max (set ks)"
proof -
  have l: "ks ! (length ks - 1) = last ks" using assms(2) by (simp add: last_conv_nth)
  have "sorted ks \<Longrightarrow> ks \<noteq> [] \<Longrightarrow> \<forall>x\<in>set ks. x \<le> last ks"
  proof (induction ks)
    case Nil
    then show ?case by simp
  next
    case (Cons a ks)
    show ?case
    proof (cases "ks = []")
      case True
      then show ?thesis by simp
    next
      case False
      then have ih: "\<forall>x\<in>set ks. x \<le> last ks" using Cons by simp
      have "last ks \<in> set ks" using False by simp
      then have "a \<le> last ks" using Cons.prems(1) by auto
      then show ?thesis using ih False by simp
    qed
  qed
  then have "\<forall>x\<in>set ks. x \<le> last ks" using assms by blast
  then have "Max (set ks) = last ks" using assms(2) by (intro Max_eqI) auto
  then show ?thesis using l by simp
qed

lemma timestamp_eq_Millis: "t = Millis m \<longleftrightarrow> toMillis t = m"
  by (cases t) auto

lemma first_sorted_timestamp:
  assumes "evs \<noteq> []"
  shows "Event.timestamp (sortByTimestamp evs ! 0)
           = Millis (Min ((\<lambda>e. toMillis (Event.timestamp e)) ` set evs))"
proof -
  let ?ks = "map (\<lambda>e. toMillis (Event.timestamp e)) (sortByTimestamp evs)"
  have "length ?ks = length evs" by simp
  then have ne: "?ks \<noteq> []" using assms by fastforce
  have "?ks ! 0 = Min (set ?ks)"
    using sorted_first_is_Min [OF sorted_sortByTimestamp ne] .
  moreover have "?ks ! 0 = toMillis (Event.timestamp (sortByTimestamp evs ! 0))"
    using assms by (simp add: nth_map)
  moreover have "set ?ks = (\<lambda>e. toMillis (Event.timestamp e)) ` set evs" by simp
  ultimately show ?thesis by (simp add: timestamp_eq_Millis)
qed

lemma last_sorted_timestamp:
  assumes "evs \<noteq> []"
  shows "Event.timestamp (sortByTimestamp evs ! (length evs - 1))
           = Millis (Max ((\<lambda>e. toMillis (Event.timestamp e)) ` set evs))"
proof -
  let ?ks = "map (\<lambda>e. toMillis (Event.timestamp e)) (sortByTimestamp evs)"
  have "length ?ks = length evs" by simp
  then have ne: "?ks \<noteq> []" using assms by fastforce
  have "?ks ! (length ?ks - 1) = Max (set ?ks)"
    using sorted_last_is_Max [OF sorted_sortByTimestamp ne] .
  moreover have "?ks ! (length ?ks - 1)
                   = toMillis (Event.timestamp (sortByTimestamp evs ! (length evs - 1)))"
    using assms by (simp add: nth_map)
  moreover have "set ?ks = (\<lambda>e. toMillis (Event.timestamp e)) ` set evs" by simp
  ultimately show ?thesis by (simp add: timestamp_eq_Millis)
qed

lemma computeAggregates_canonical:
  assumes "evs \<noteq> []"
  shows "computeAggregates evs =
     Inr \<lparr> SessionAggregates.startTime
             = Millis (Min ((\<lambda>e. toMillis (Event.timestamp e)) ` set evs)),
           SessionAggregates.endTime
             = Millis (Max ((\<lambda>e. toMillis (Event.timestamp e)) ` set evs)),
           SessionAggregates.totalDuration = doubleSum (map Event.duration (sortByTimestamp evs)),
           SessionAggregates.totalDistance = doubleSum (map Event.distance (sortByTimestamp evs)),
           SessionAggregates.totalCalories = doubleSum (map Event.calories (sortByTimestamp evs)),
           SessionAggregates.totalSteps = doubleSum (map Event.steps (sortByTimestamp evs)),
           SessionAggregates.eventCount = length evs,
           SessionAggregates.lastEventTime
             = Millis (Max ((\<lambda>e. toMillis (Event.timestamp e)) ` set evs)) \<rparr>"
  using assms
  by (simp add: computeAggregates_def Let_def sum_numbers_doubleSum
      first_sorted_timestamp last_sorted_timestamp del: One_nat_def)

lemma exactlySummable_mset:
  assumes "mset xs = mset ys"
  shows "exactlySummable xs = exactlySummable ys"
proof -
  have s: "set xs = set ys" using assms by (rule mset_eq_setD)
  show ?thesis
    unfolding exactlySummable_def list_all_iff
    by (simp only: s sum_list_mset_cong [OF assms])
qed

lemma doubleSum_measure_exact:
  assumes "list_all (\<lambda>e. wholeMeasure (f e)) evs"
    and "(\<Sum>e\<leftarrow>evs. measureValue (f e)) \<le> 2 ^ 53"
  shows "doubleSum (map f evs) = Finite (\<Sum>e\<leftarrow>evs. measureValue (f e))"
proof -
  have a: "list_all wholeMeasure (map f evs)" using assms(1) by (simp add: list_all_iff)
  have b: "sum_list (map measureValue (map f evs)) = (\<Sum>e\<leftarrow>evs. measureValue (f e))"
    by (simp add: comp_def)
  show ?thesis using doubleSum_exact [OF a] assms(2) unfolding b by simp
qed

lemma roundDouble_eval:
  assumes "0 < x" and "log2floor x = e" and "max (e - 52) (- 1074) = q"
    and "roundHalfEven (x / 2 powi q) = m" and "of_int m * 2 powi q = r"
    and "r < 2 powi 1024"
  shows "roundDouble x = Finite r"
proof -
  have a: "\<bar>x\<bar> = x" using assms(1) by simp
  have n: "x \<noteq> 0" using assms(1) by simp
  have l: "\<not> 2 powi 1024 \<le> r" using assms(6) by simp
  show ?thesis
    unfolding roundDouble_def Let_def a assms(2) assms(3) assms(4) assms(5)
    using n l assms(1) by (simp only: if_False if_True)
qed

lemma fadd_examples:
  "fadd (Finite 0) (Finite 65536) = Finite 65536"
  "fadd (Finite 0) (Finite 1) = Finite 1"
  "fadd (Finite 1) (Finite 1) = Finite 2"
  "fadd (Finite 2) (Finite 1) = Finite 3"
  using fadd_whole [of 0 65536] fadd_whole [of 0 1] fadd_whole [of 1 1] fadd_whole [of 2 1]
  by (simp_all del: fadd.simps)

lemma fadd_rounds: "fadd (Finite 65536) (Finite halfSpacing) = Finite 65536"
proof -
  have p: "0 < 65536 + halfSpacing" by (simp add: halfSpacing_def)
  have l: "log2floor (65536 + halfSpacing) = 16" by code_simp
  have r: "roundHalfEven ((65536 + halfSpacing) / 2 powi (- 36)) = 2 ^ 52" by code_simp
  have v: "of_int (2 ^ 52) * 2 powi (- 36) = (65536::rat)" by (simp add: power_int_minus)
  have "roundDouble (65536 + halfSpacing) = Finite 65536"
    by (rule roundDouble_eval [OF p l _ r v]) simp_all
  then show ?thesis by simp
qed

lemma fadd_halfSpacing: "fadd (Finite 0) (Finite halfSpacing) = Finite halfSpacing"
proof -
  have p: "0 < halfSpacing" by (simp add: halfSpacing_def)
  have l: "log2floor halfSpacing = - 37" by code_simp
  have r: "roundHalfEven (halfSpacing / 2 powi (- 89)) = 2 ^ 52" by code_simp
  have v: "of_int (2 ^ 52) * 2 powi (- 89) = halfSpacing"
    by (simp add: power_int_minus halfSpacing_def)
  have b: "halfSpacing < 2 powi 1024" by (simp add: halfSpacing_def)
  have "roundDouble halfSpacing = Finite halfSpacing"
    by (rule roundDouble_eval [OF p l _ r v b]) simp
  then show ?thesis by simp
qed

lemma fadd_twice: "fadd (Finite halfSpacing) (Finite halfSpacing) = Finite (2 * halfSpacing)"
proof -
  have p: "0 < halfSpacing + halfSpacing" by (simp add: halfSpacing_def)
  have l: "log2floor (halfSpacing + halfSpacing) = - 36" by code_simp
  have r: "roundHalfEven ((halfSpacing + halfSpacing) / 2 powi (- 88)) = 2 ^ 52" by code_simp
  have v: "of_int (2 ^ 52) * 2 powi (- 88) = 2 * halfSpacing"
    by (simp add: power_int_minus halfSpacing_def)
  have b: "2 * halfSpacing < 2 powi 1024" by (simp add: halfSpacing_def)
  have "roundDouble (halfSpacing + halfSpacing) = Finite (2 * halfSpacing)"
    by (rule roundDouble_eval [OF p l _ r v b]) simp
  then show ?thesis by (simp only: fadd.simps)
qed

lemma fadd_exact: "fadd (Finite (2 * halfSpacing)) (Finite 65536) = Finite (65536 + 2 * halfSpacing)"
proof -
  have p: "0 < 2 * halfSpacing + 65536" by (simp add: halfSpacing_def)
  have l: "log2floor (2 * halfSpacing + 65536) = 16" by code_simp
  have r: "roundHalfEven ((2 * halfSpacing + 65536) / 2 powi (- 36)) = 2 ^ 52 + 1" by code_simp
  have v: "of_int (2 ^ 52 + 1) * 2 powi (- 36) = 65536 + 2 * halfSpacing"
    by (simp add: power_int_minus halfSpacing_def)
  have b: "65536 + 2 * halfSpacing < 2 powi 1024" by (simp add: halfSpacing_def)
  have "roundDouble (2 * halfSpacing + 65536) = Finite (65536 + 2 * halfSpacing)"
    by (rule roundDouble_eval [OF p l _ r v b]) simp
  then show ?thesis by (simp only: fadd.simps)
qed

lemmas fadd_ties = fadd_examples fadd_rounds fadd_halfSpacing fadd_twice fadd_exact

lemma halfSpacing_facts:
  "Finite 65536 \<noteq> Finite (65536 + 2 * halfSpacing)"
  "65536 + halfSpacing + halfSpacing = 65536 + 2 * halfSpacing"
  "halfSpacing + halfSpacing + 65536 = 65536 + 2 * halfSpacing"
  "0 < halfSpacing" "halfSpacing \<le> 100000"
  by (simp_all add: halfSpacing_def)

lemma tie_fields:
  "Event.eventId tieA = ''a''" "Event.eventId tieB = ''b''" "Event.eventId tieC = ''c''"
  "Event.timestamp tieA = Millis 100" "Event.timestamp tieB = Millis 100"
  "Event.timestamp tieC = Millis 100"
  "Event.distance tieA = Some (Finite 65536)" "Event.distance tieB = Some (Finite halfSpacing)"
  "Event.distance tieC = Some (Finite halfSpacing)"
  "Event.duration tieA = Some (Finite 1)" "Event.duration tieB = Some (Finite 1)"
  "Event.duration tieC = Some (Finite 1)"
  "Event.calories tieA = Some (Finite 1)" "Event.calories tieB = Some (Finite 1)"
  "Event.calories tieC = Some (Finite 1)"
  "Event.steps tieA = Some (Finite 1)" "Event.steps tieB = Some (Finite 1)"
  "Event.steps tieC = Some (Finite 1)"
  "firstUndefined tieA = None" "firstUndefined tieB = None" "firstUndefined tieC = None"
  by (simp_all add: tieA_def tieB_def tieC_def firstUndefined_def)

lemma sortByTimestamp_ties:
  "Event.timestamp x = Millis 100 \<Longrightarrow> Event.timestamp y = Millis 100
   \<Longrightarrow> Event.timestamp z = Millis 100 \<Longrightarrow> sortByTimestamp [x, y, z] = [x, y, z]"
  "Event.timestamp x = Millis 100 \<Longrightarrow> Event.timestamp y = Millis 100
   \<Longrightarrow> sortByTimestamp [x, y] = [x, y]"
  "sortByTimestamp [x] = [x]"
  by (simp_all add: sortByTimestamp_def)

lemma doubleSum_ties:
  "doubleSum [Some (Finite 65536), Some (Finite halfSpacing), Some (Finite halfSpacing)]
     = Finite 65536"
  "doubleSum [Some (Finite halfSpacing), Some (Finite halfSpacing), Some (Finite 65536)]
     = Finite (65536 + 2 * halfSpacing)"
  "doubleSum [Some (Finite 65536)] = Finite 65536"
  "doubleSum [Some (Finite 65536), Some (Finite halfSpacing)] = Finite 65536"
  "doubleSum [Some (Finite halfSpacing)] = Finite halfSpacing"
  "doubleSum [Some (Finite halfSpacing), Some (Finite halfSpacing)] = Finite (2 * halfSpacing)"
  "doubleSum [Some (Finite 1)] = Finite 1"
  "doubleSum [Some (Finite 1), Some (Finite 1)] = Finite 2"
  "doubleSum [Some (Finite 1), Some (Finite 1), Some (Finite 1)] = Finite 3"
  by (simp_all add: doubleSum_def measureOrZero_def fadd_ties del: fadd.simps)

section \<open>Claims about the aggregate engine\<close>




text \<open>
  C8. \<open>computeAggregates\<close> applied to an empty event collection fails with the empty-input
  error: for every input of zero events the error branch is taken and no aggregate value is
  returned.
\<close>

theorem computeAggregates_empty:
  assumes "length evs = 0"
  shows "computeAggregates evs = Inl (Error ''Cannot compute aggregates from empty event list'')
     \<and> (\<forall>agg. computeAggregates evs \<noteq> Inr agg)"
  using assms by (simp add: computeAggregates_def)

theorem computeAggregates_empty_witness:
  "length ([] :: Event list) = 0
   \<and> computeAggregates [] = Inl (Error ''Cannot compute aggregates from empty event list'')"
  using computeAggregates_empty [of "[]"] by simp

section \<open>Facts about the upsert coordinator\<close>

lemma update_fresh:
  "map_of al k = None \<Longrightarrow> AList.update k v al = al @ [(k, v)]"
  by (induction al) (auto split: if_splits)

lemma mset_listDocuments [simp]: "mset (listDocuments docs) = mset (map snd docs)"
proof -
  have "mset (map snd (sort_key fst docs)) = image_mset snd (mset (sort_key fst docs))"
    by (rule mset_map)
  then show ?thesis by (simp add: listDocuments_def)
qed

lemma length_listDocuments [simp]: "length (listDocuments docs) = length docs"
  by (simp add: listDocuments_def)

lemma set_listDocuments [simp]: "set (listDocuments docs) = snd ` set docs"
  by (simp add: listDocuments_def)

lemma upsertTransaction_duplicate:
  assumes "map_of (events db sid) (Event.eventId ev) = Some x"
  shows "upsertTransaction sid uid ev env db =
     Inr (\<lparr> UpsertResult.status = Duplicate,
             UpsertResult.session = map_option sessionAggregates (sessions db sid) \<rparr>, db)"
  using assms by (simp add: upsertTransaction_def split: option.splits)

lemma upsertTransaction_refused:
  assumes "map_of (events db sid) (Event.eventId ev) = None"
    and "firstUndefined ev = Some field"
  shows "upsertTransaction sid uid ev env db = Inl (undefinedValueError field)"
  using assms by (simp add: upsertTransaction_def Let_def)

lemma firstUndefined_fields:
  "firstUndefined ev = Some field \<Longrightarrow>
     field \<in> {''duration'', ''distance'', ''calories'', ''steps'', ''sequenceNumber''}"
  by (auto simp add: firstUndefined_def split: if_splits)

lemma refusal_not_retried:
  assumes "firstUndefined ev = Some field"
  shows "\<not> includesSub (message (undefinedValueError field)) ''transaction''"
proof -
  have "\<not> includesSub (message (undefinedValueError ''duration'')) ''transaction''"
    "\<not> includesSub (message (undefinedValueError ''distance'')) ''transaction''"
    "\<not> includesSub (message (undefinedValueError ''calories'')) ''transaction''"
    "\<not> includesSub (message (undefinedValueError ''steps'')) ''transaction''"
    "\<not> includesSub (message (undefinedValueError ''sequenceNumber'')) ''transaction''"
    by (simp_all add: undefinedValueError_def)
  then show ?thesis using firstUndefined_fields [OF assms] by auto
qed

lemma upsertTransaction_created:
  assumes "map_of (events db sid) (Event.eventId ev) = None"
    and "firstUndefined ev = None"
  shows "\<exists>sess. upsertTransaction sid uid ev env db =
     Inr (\<lparr> UpsertResult.status = Created,
             UpsertResult.session = Some (sessionAggregates sess) \<rparr>,
          db\<lparr> events := (events db)(sid := events db sid @ [(Event.eventId ev, ev)]),
              sessions := (sessions db)(sid \<mapsto> sess) \<rparr>)
     \<and> countAndSpanOver sess (storedEvents db sid @ [ev])
     \<and> totalsFoldedOver sess
          (sortByTimestamp (sortByTimestamp (listDocuments (events db sid)) @ [ev]))"
proof -
  let ?all = "sortByTimestamp (listDocuments (events db sid)) @ [ev]"
  let ?evs = "storedEvents db sid @ [ev]"
  let ?ts = "\<lambda>e. toMillis (Event.timestamp e)"
  have ne: "?all \<noteq> []" by simp
  have st: "set ?all = set ?evs" by (simp add: storedEvents_def)
  have ln: "length ?all = length ?evs" by (simp add: storedEvents_def)
  obtain agg where agg: "computeAggregates ?all = Inr agg"
    using computeAggregates_canonical [OF ne] by simp
  have flds:
    "SessionAggregates.startTime agg = Millis (Min (?ts ` set ?evs))"
    "SessionAggregates.endTime agg = Millis (Max (?ts ` set ?evs))"
    "SessionAggregates.lastEventTime agg = Millis (Max (?ts ` set ?evs))"
    "SessionAggregates.totalDuration agg = doubleSum (map Event.duration (sortByTimestamp ?all))"
    "SessionAggregates.totalDistance agg = doubleSum (map Event.distance (sortByTimestamp ?all))"
    "SessionAggregates.totalCalories agg = doubleSum (map Event.calories (sortByTimestamp ?all))"
    "SessionAggregates.totalSteps agg = doubleSum (map Event.steps (sortByTimestamp ?all))"
    "SessionAggregates.eventCount agg = length ?evs"
    using agg unfolding computeAggregates_canonical [OF ne] st ln by auto
  let ?w = "(case sessions db sid of
               Some s \<Rightarrow>
                 s\<lparr> Session.startTime := SessionAggregates.startTime agg,
                    Session.endTime := Some (SessionAggregates.endTime agg),
                    Session.totalDuration := SessionAggregates.totalDuration agg,
                    Session.totalDistance := SessionAggregates.totalDistance agg,
                    Session.totalCalories := SessionAggregates.totalCalories agg,
                    Session.totalSteps := SessionAggregates.totalSteps agg,
                    Session.eventCount := SessionAggregates.eventCount agg,
                    Session.lastEventTime := SessionAggregates.lastEventTime agg,
                    Session.version := Session.version s + 1,
                    Session.updatedAt := serverTimestamp env \<rparr>
             | None \<Rightarrow>
                 \<lparr> Session.userId = uid,
                   Session.startTime = SessionAggregates.startTime agg,
                   Session.endTime = Some (SessionAggregates.endTime agg),
                   Session.totalDuration = SessionAggregates.totalDuration agg,
                   Session.totalDistance = SessionAggregates.totalDistance agg,
                   Session.totalCalories = SessionAggregates.totalCalories agg,
                   Session.totalSteps = SessionAggregates.totalSteps agg,
                   Session.eventCount = SessionAggregates.eventCount agg,
                   Session.lastEventTime = SessionAggregates.lastEventTime agg,
                   Session.version = 1,
                   Session.createdAt = now env,
                   Session.updatedAt = now env \<rparr>)"
  have w: "sessionAggregates ?w = agg"
    by (cases "sessions db sid") (simp_all add: sessionAggregates_def)
  have run: "upsertTransaction sid uid ev env db =
     Inr (\<lparr> UpsertResult.status = Created, UpsertResult.session = Some agg \<rparr>,
          db\<lparr> events := (events db)(sid := events db sid @ [(Event.eventId ev, ev)]),
              sessions := (sessions db)(sid \<mapsto> ?w) \<rparr>)"
    unfolding upsertTransaction_def Let_def
    by (cases "sessions db sid") (simp_all add: assms update_fresh [OF assms(1)] agg)
  have inv1: "countAndSpanOver ?w ?evs"
    unfolding countAndSpanOver_def
    by (cases "sessions db sid") (simp_all add: flds)
  have inv2: "totalsFoldedOver ?w (sortByTimestamp ?all)"
    unfolding totalsFoldedOver_def
    by (cases "sessions db sid") (simp_all add: flds)
  show ?thesis
    by (rule exI [of _ ?w]) (simp only: run w inv1 inv2 simp_thms)
qed

lemma upsertTransaction_not_retried:
  assumes "upsertTransaction sid uid ev env db = Inl err"
  shows "\<not> includesSub (message err) ''transaction''"
proof (cases "map_of (events db sid) (Event.eventId ev)")
  case (Some x)
  then show ?thesis using assms by (simp add: upsertTransaction_duplicate)
next
  case None
  show ?thesis
  proof (cases "firstUndefined ev")
    case (Some field)
    then show ?thesis
      using assms refusal_not_retried [OF Some]
      by (simp add: upsertTransaction_refused [OF None Some])
  next
    case n: None
    then show ?thesis
      using assms upsertTransaction_created [OF None n, of uid env] by auto
  qed
qed

lemma upsertLoop_step:
  assumes "attempt < 3"
  shows "upsertLoop sid uid ev env attempt le sl db =
     (case faults env attempt of
        None \<Rightarrow>
          (case upsertTransaction sid uid ev env db of
             Inr (r, db') \<Rightarrow>
               \<lparr> result = Inr r, store = db', sleeps = sl, attempts = Suc attempt \<rparr>
           | Inl err \<Rightarrow> \<lparr> result = Inl err, store = db, sleeps = sl, attempts = Suc attempt \<rparr>)
      | Some failure \<Rightarrow>
          if attempt < 2 \<and> includesSub (message (thrown failure)) ''transaction''
          then upsertLoop sid uid ev env (Suc attempt) (Some (thrown failure))
                 (sl @ [2 ^ attempt * 100]) db
          else \<lparr> result = Inl (thrown failure), store = db, sleeps = sl,
                 attempts = Suc attempt \<rparr>)"
proof (cases "faults env attempt")
  case (Some failure)
  show ?thesis
    by (subst upsertLoop.simps)
      (use assms Some in \<open>auto simp add: MAX_TRANSACTION_RETRIES_def runTransaction_def\<close>)
next
  case None
  show ?thesis
  proof (cases "upsertTransaction sid uid ev env db")
    case (Inl err)
    have "\<not> includesSub (message err) ''transaction''"
      using Inl by (rule upsertTransaction_not_retried)
    then show ?thesis
      by (subst upsertLoop.simps)
        (use assms None Inl in \<open>simp add: MAX_TRANSACTION_RETRIES_def runTransaction_def\<close>)
  next
    case (Inr p)
    then show ?thesis
      by (subst upsertLoop.simps)
        (use assms None in \<open>simp add: MAX_TRANSACTION_RETRIES_def runTransaction_def
          split: prod.splits\<close>)
  qed
qed

lemma upsert_unrolled:
  "upsertEventAndUpdateSession sid uid ev env db =
     (case faults env 0 of
        None \<Rightarrow> attemptOutcome (upsertTransaction sid uid ev env db) db [] 1
      | Some c0 \<Rightarrow>
          if includesSub (message (thrown c0)) ''transaction'' then
            (case faults env 1 of
               None \<Rightarrow> attemptOutcome (upsertTransaction sid uid ev env db) db [100] 2
             | Some c1 \<Rightarrow>
                 if includesSub (message (thrown c1)) ''transaction'' then
                   (case faults env 2 of
                      None \<Rightarrow>
                        attemptOutcome (upsertTransaction sid uid ev env db) db [100, 200] 3
                    | Some c2 \<Rightarrow>
                        \<lparr> result = Inl (thrown c2), store = db, sleeps = [100, 200],
                          attempts = 3 \<rparr>)
                 else \<lparr> result = Inl (thrown c1), store = db, sleeps = [100], attempts = 2 \<rparr>)
          else \<lparr> result = Inl (thrown c0), store = db, sleeps = [], attempts = 1 \<rparr>)"
  by (simp add: upsertEventAndUpdateSession_def upsertLoop_step attemptOutcome_def
      eval_nat_numeral split: option.splits sum.splits prod.splits)

lemma upsert_returned:
  assumes "result (upsertEventAndUpdateSession sid uid ev env db) = Inr r"
  shows "upsertTransaction sid uid ev env db
           = Inr (r, store (upsertEventAndUpdateSession sid uid ev env db))"
  using assms unfolding upsert_unrolled attemptOutcome_def
  by (auto split: option.splits if_splits sum.splits prod.splits)

lemma upsert_failed:
  assumes "result (upsertEventAndUpdateSession sid uid ev env db) = Inl err"
  shows "store (upsertEventAndUpdateSession sid uid ev env db) = db"
  using assms unfolding upsert_unrolled attemptOutcome_def
  by (auto split: option.splits if_splits sum.splits prod.splits)

lemma upsert_store_cases:
  "store (upsertEventAndUpdateSession sid uid ev env db) = db
   \<or> (\<exists>r. upsertTransaction sid uid ev env db
             = Inr (r, store (upsertEventAndUpdateSession sid uid ev env db)))"
  unfolding upsert_unrolled attemptOutcome_def
  by (auto split: option.splits if_splits sum.splits prod.splits)

lemma upsert_no_fault:
  assumes "faults env 0 = None"
  shows "upsertEventAndUpdateSession sid uid ev env db
           = attemptOutcome (upsertTransaction sid uid ev env db) db [] 1"
  by (simp add: upsert_unrolled assms)

section \<open>Facts about validation, the idempotency ledger and the handler\<close>

lemma isInteger_Ints: "isInteger x \<longleftrightarrow> x \<in> \<int>"
  unfolding isInteger_def by (metis Ints_of_int of_int_floor)

lemma validateMetrics_valid_gen:
  "isValid (validateMetrics p c) \<longleftrightarrow>
     (\<forall>d. RawEventPayload.distance p = Some d \<longrightarrow> 0 \<le> d \<and> d \<le> maxDistance c)
     \<and> (\<forall>k. RawEventPayload.calories p = Some k \<longrightarrow> 0 \<le> k \<and> k \<le> maxCalories c)
     \<and> (\<forall>n. RawEventPayload.steps p = Some n \<longrightarrow> 0 \<le> n \<and> n \<in> \<int> \<and> n \<le> maxSteps c)
     \<and> (\<forall>d. RawEventPayload.duration p = Some d \<longrightarrow> 0 \<le> d \<and> d \<le> maxDuration c)"
  unfolding validateMetrics_def Let_def
  by (cases "RawEventPayload.distance p"; cases "RawEventPayload.calories p";
      cases "RawEventPayload.steps p"; cases "RawEventPayload.duration p")
     (simp_all add: isInteger_Ints not_less)

lemma validateMetrics_valid:
  "isValid (validateMetrics p DEFAULT_CONSTRAINTS) \<longleftrightarrow>
     (\<forall>d. RawEventPayload.distance p = Some d \<longrightarrow> 0 \<le> d \<and> d \<le> 100000)
     \<and> (\<forall>c. RawEventPayload.calories p = Some c \<longrightarrow> 0 \<le> c \<and> c \<le> 10000)
     \<and> (\<forall>n. RawEventPayload.steps p = Some n \<longrightarrow> 0 \<le> n \<and> n \<in> \<int> \<and> n \<le> 100000)
     \<and> (\<forall>d. RawEventPayload.duration p = Some d \<longrightarrow> 0 \<le> d \<and> d \<le> 86400)"
  by (simp only: validateMetrics_valid_gen) (simp add: DEFAULT_CONSTRAINTS_def)

lemma validateTimestamp_valid:
  "isValid (validateTimestamp ts DEFAULT_CONSTRAINTS env) \<longleftrightarrow>
     toMillis ts - toMillis (now env) \<le> 3600 * 1000
     \<and> toMillis (now env) - toMillis ts \<le> 30 * 24 * 3600 * 1000"
proof -
  have a: "\<And>x :: int. (rat_of_int x / 1000 > 3600) = (x > 3600 * 1000)"
    by (simp add: pos_less_divide_eq)
  have b: "\<And>x :: int. (rat_of_int x / 1000 > 2592000) = (x > 30 * 24 * 3600 * 1000)"
    by (simp add: pos_less_divide_eq)
  show ?thesis
    unfolding validateTimestamp_def DEFAULT_CONSTRAINTS_def Let_def
    by (simp add: a b not_less)
qed

lemma validateMetrics_isValid:
  "isValid (validateMetrics p c) = (ValidationResult.errors (validateMetrics p c) = [])"
  by (simp add: validateMetrics_def Let_def)

lemma validateTimestamp_isValid:
  "isValid (validateTimestamp ts c env) = (ValidationResult.errors (validateTimestamp ts c env) = [])"
  by (simp add: validateTimestamp_def Let_def)

lemma validatePayload_valid:
  assumes "isValid (validatePayload p c env)"
  shows "truthy (RawEventPayload.eventId p) \<and> truthy (RawEventPayload.sessionId p)
     \<and> truthy (RawEventPayload.userId p)
     \<and> isValid (validateMetrics p c)
     \<and> (\<exists>raw ts. RawEventPayload.timestamp p = Some raw \<and> normalizeTimestamp env raw = Inr ts
           \<and> isValid (validateTimestamp ts c env))"
proof -
  have m: "isValid (validateMetrics p c)"
    using assms unfolding validatePayload_def Let_def
    by (simp add: validateMetrics_isValid split: if_splits)
  have ids: "truthy (RawEventPayload.eventId p) \<and> truthy (RawEventPayload.sessionId p)
     \<and> truthy (RawEventPayload.userId p) \<and> truthyTimestamp (RawEventPayload.timestamp p)"
    using assms unfolding validatePayload_def Let_def
    by (simp add: validateMetrics_isValid split: if_splits option.splits sum.splits)
  then obtain raw where raw: "RawEventPayload.timestamp p = Some raw"
    by (cases "RawEventPayload.timestamp p") (auto simp add: truthyTimestamp_def)
  have "\<exists>ts. normalizeTimestamp env raw = Inr ts \<and> isValid (validateTimestamp ts c env)"
    using assms ids unfolding validatePayload_def Let_def raw
    by (cases "normalizeTimestamp env raw")
       (simp_all add: validateMetrics_isValid validateTimestamp_isValid split: if_splits)
  then show ?thesis using m ids raw by blast
qed

lemma payloadE1_valid: "isValid (validatePayload payloadE1 DEFAULT_CONSTRAINTS envNoFaults)"
  by (simp add: validatePayload_def validateMetrics_def validateTimestamp_def
      normalizeTimestamp_def truthy_def truthyTimestamp_def isInteger_def payloadE1_def
      envNoFaults_def DEFAULT_CONSTRAINTS_def Let_def)

lemma normalizePayload_valid:
  assumes "isValid (validatePayload p c env)"
  shows "\<exists>normalized. normalizePayload p env = Inr normalized
     \<and> RawEventPayload.eventId p = Some (NormalizedEventPayload.eventId normalized)
     \<and> RawEventPayload.sessionId p = Some (NormalizedEventPayload.sessionId normalized)
     \<and> RawEventPayload.userId p = Some (NormalizedEventPayload.userId normalized)
     \<and> NormalizedEventPayload.eventId normalized \<noteq> []
     \<and> NormalizedEventPayload.sessionId normalized \<noteq> []
     \<and> NormalizedEventPayload.sequenceNumber normalized = RawEventPayload.sequenceNumber p"
proof -
  from validatePayload_valid [OF assms]
  obtain raw ts where t: "RawEventPayload.timestamp p = Some raw"
      "normalizeTimestamp env raw = Inr ts"
    and ids: "truthy (RawEventPayload.eventId p)" "truthy (RawEventPayload.sessionId p)"
      "truthy (RawEventPayload.userId p)"
    by blast
  show ?thesis
    using ids by (auto simp add: normalizePayload_def t truthy_def split: option.splits)
qed

lemma processWithKey_not_missingKey:
  "fst (processWithKey ikey env req db) \<noteq> missingKeyReply"
proof -
  have "statusCode (fst (processWithKey ikey env req db)) = 400 \<longrightarrow>
          (\<exists>errs. json (fst (processWithKey ikey env req db)) =
             ResponseObject \<lparr> success = False, IngestResponse.session = Absent, error = None,
                              IngestResponse.errors = Some errs \<rparr>)"
    unfolding processWithKey_def Let_def catchBlock_def
    by (auto split: prod.splits option.splits sum.splits if_splits)
  then show ?thesis
    by (auto simp add: missingKeyReply_def)
qed

lemma ingest_with_key:
  assumes "extractIdempotencyKey req = Some ikey" "ikey \<noteq> []"
  shows "ingestSessionEvent env req db = processWithKey ikey env req db"
  using assms by (simp add: ingestSessionEvent_def Let_def truthy_def)

lemma extract_truthy:
  "truthy (extractIdempotencyKey req) \<longleftrightarrow>
     truthy (headers req ''idempotency-key'') \<or> truthy (idempotencyKey (body req))
     \<or> truthy (RawEventPayload.eventId (body req))"
  by (simp add: extractIdempotencyKey_def orElse_def)

lemma markProcessing_absorb:
  "markProcessing ikey sid env (db\<lparr> idempotency := (idempotency db)(ikey := None) \<rparr>)
     = markProcessing ikey sid env db"
  by (simp add: markProcessing_def)

lemma processWithKey_completed:
  assumes "idempotency db ikey = Some rec"
    and "\<not> toMillis (expiresAt rec) < toMillis (now env)"
    and "IdempotencyRecord.status rec = Completed"
  shows "processWithKey ikey env req db = (\<lparr> statusCode = 200, json = response rec \<rparr>, db)"
  using assms by (simp add: processWithKey_def checkIdempotency_def)

lemma processWithKey_expired:
  assumes "idempotency db ikey = Some rec"
    and "toMillis (expiresAt rec) < toMillis (now env)"
  shows "processWithKey ikey env req db
     = processWithKey ikey env req (db\<lparr> idempotency := (idempotency db)(ikey := None) \<rparr>)"
  using assms by (simp add: processWithKey_def checkIdempotency_def)

lemma checkIdempotency_not_replayable:
  assumes "\<not> replayable env db ikey"
  shows "(if isDuplicate (fst (checkIdempotency ikey env db))
          then cachedResponse (fst (checkIdempotency ikey env db)) else None) = None"
    and "markProcessing ikey sid env (snd (checkIdempotency ikey env db))
          = markProcessing ikey sid env db"
    and "k \<noteq> ikey \<Longrightarrow> idempotency (snd (checkIdempotency ikey env db)) k = idempotency db k"
    and "sessions (snd (checkIdempotency ikey env db)) = sessions db"
    and "events (snd (checkIdempotency ikey env db)) = events db"
  using assms
  by (auto simp add: replayable_def checkIdempotency_def markProcessing_def
      split: option.splits)

lemma processWithKey_invalid:
  assumes "\<not> replayable env db ikey"
    and "\<not> isValid (validatePayload (body req) DEFAULT_CONSTRAINTS env)"
  shows "processWithKey ikey env req db =
     (\<lparr> statusCode = 400,
        json = ResponseObject
          \<lparr> success = False, IngestResponse.session = Absent, error = None,
            IngestResponse.errors =
              Some (ValidationResult.errors
                      (validatePayload (body req) DEFAULT_CONSTRAINTS env)) \<rparr> \<rparr>,
      snd (checkIdempotency ikey env db))"
proof -
  obtain r db1 where c: "checkIdempotency ikey env db = (r, db1)" by (rule prod.exhaust)
  have n: "(if isDuplicate r then cachedResponse r else None) = None"
    using checkIdempotency_not_replayable(1) [OF assms(1)] unfolding c
    by (auto split: if_splits)
  show ?thesis
    unfolding processWithKey_def c using n assms(2) by (simp add: Let_def)
qed

lemma processWithKey_processed:
  assumes "\<not> replayable env db ikey"
    and "normalizePayload (body req) env = Inr normalized"
    and "isValid (validatePayload (body req) DEFAULT_CONSTRAINTS env)"
  shows "processWithKey ikey env req db =
     (let sid = NormalizedEventPayload.sessionId normalized;
          outcome = upsertEventAndUpdateSession sid (NormalizedEventPayload.userId normalized)
                      (eventObject normalized env) env (markProcessing ikey sid env db)
      in case result outcome of
           Inl err \<Rightarrow> catchBlock ikey (Some sid) err env (store outcome)
         | Inr res \<Rightarrow>
             (case cacheResponse ikey sid (ResponseObject (successResponse sid res)) env
                     (store outcome) of
                Inl err \<Rightarrow> catchBlock ikey (Some sid) err env (store outcome)
              | Inr db3 \<Rightarrow>
                  (\<lparr> statusCode = 200, json = ResponseObject (successResponse sid res) \<rparr>,
                   db3)))"
proof -
  obtain r db1 where c: "checkIdempotency ikey env db = (r, db1)" by (rule prod.exhaust)
  have n: "(if isDuplicate r then cachedResponse r else None) = None"
    using checkIdempotency_not_replayable(1) [OF assms(1)] unfolding c
    by (auto split: if_splits)
  have m: "\<And>sid. markProcessing ikey sid env db1 = markProcessing ikey sid env db"
    using checkIdempotency_not_replayable(2) [OF assms(1)] unfolding c by simp
  show ?thesis
    unfolding processWithKey_def c using n assms(2,3)
    by (simp add: Let_def m split: sum.splits)
qed

lemma processWithKey_not_completed:
  assumes "idempotency db ikey = Some rec"
    and "\<not> toMillis (expiresAt rec) < toMillis (now env)"
    and "IdempotencyRecord.status rec \<noteq> Completed"
  shows "fst (processWithKey ikey env req db)
     = fst (processWithKey ikey env req (db\<lparr> idempotency := (idempotency db)(ikey := None) \<rparr>))"
  using assms
  by (simp add: processWithKey_def checkIdempotency_def Let_def markProcessing_absorb
      catchBlock_def cacheResponse_def split: sum.splits option.splits)

lemma upsert_idempotency:
  "idempotency (store (upsertEventAndUpdateSession sid uid ev env db)) = idempotency db"
proof -
  let ?db' = "store (upsertEventAndUpdateSession sid uid ev env db)"
  from upsert_store_cases [of sid uid ev env db]
  consider "?db' = db" | r where "upsertTransaction sid uid ev env db = Inr (r, ?db')"
    by blast
  then show ?thesis
  proof cases
    case 1
    then show ?thesis by simp
  next
    case 2
    show ?thesis
    proof (cases "map_of (events db sid) (Event.eventId ev)")
      case (Some x)
      then show ?thesis using 2 by (simp add: upsertTransaction_duplicate)
    next
      case None
      show ?thesis
      proof (cases "firstUndefined ev")
        case (Some field)
        then show ?thesis using 2 by (simp add: upsertTransaction_refused [OF None Some])
      next
        case n: None
        from upsertTransaction_created [OF None n, of uid env] 2
        obtain sess where
          "?db' = db\<lparr> events := (events db)(sid := events db sid @ [(Event.eventId ev, ev)]),
                      sessions := (sessions db)(sid \<mapsto> sess) \<rparr>"
          by auto
        then show ?thesis by simp
      qed
    qed
  qed
qed

lemma upsert_event_stored:
  assumes "result (upsertEventAndUpdateSession sid uid ev env db) = Inr r"
  shows "map_of (events (store (upsertEventAndUpdateSession sid uid ev env db)) sid)
           (Event.eventId ev) \<noteq> None"
proof -
  let ?db' = "store (upsertEventAndUpdateSession sid uid ev env db)"
  note t = upsert_returned [OF assms]
  show ?thesis
  proof (cases "map_of (events db sid) (Event.eventId ev)")
    case (Some x)
    then show ?thesis using t by (simp add: upsertTransaction_duplicate)
  next
    case None
    show ?thesis
    proof (cases "firstUndefined ev")
      case (Some field)
      then show ?thesis using t by (simp add: upsertTransaction_refused [OF None Some])
    next
      case n: None
      from upsertTransaction_created [OF None n, of uid env] t
      obtain sess where
        "?db' = db\<lparr> events := (events db)(sid := events db sid @ [(Event.eventId ev, ev)]),
                    sessions := (sessions db)(sid \<mapsto> sess) \<rparr>"
        by auto
      then show ?thesis by simp
    qed
  qed
qed

lemma reqE1_key: "extractIdempotencyKey reqE1 = Some ''k1''"
  by (simp add: extractIdempotencyKey_def orElse_def truthy_def reqE1_def)

lemma reqE1_normalized:
  "normalizePayload payloadE1 envNoFaults =
     Inr \<lparr> NormalizedEventPayload.eventId = ''e1'', NormalizedEventPayload.sessionId = ''s1'',
           NormalizedEventPayload.userId = ''u1'', NormalizedEventPayload.timestamp = Millis 100,
           NormalizedEventPayload.duration = 10, NormalizedEventPayload.distance = 100,
           NormalizedEventPayload.calories = 10, NormalizedEventPayload.steps = 100,
           NormalizedEventPayload.sequenceNumber = Some 1 \<rparr>"
  by (simp add: normalizePayload_def normalizeTimestamp_def payloadE1_def)

lemma roundDouble_examples:
  "roundDouble 10 = Finite 10" "roundDouble 100 = Finite 100"
  using roundDouble_of_int [of 10] roundDouble_of_int [of 100] by simp_all

lemma payloadE1_reply:
  assumes "body req = payloadE1" and "\<not> replayable envNoFaults db ikey"
    and "events db ''s1'' = []" and "sessions db ''s1'' = None"
  shows "fst (processWithKey ikey envNoFaults req db) =
     \<lparr> statusCode = 200,
       json = ResponseObject
         \<lparr> success = True,
           IngestResponse.session =
             Present \<lparr> SessionInfo.sessionId = ''s1'',
                       aggregates = \<lparr> AggregateTotals.totalDuration = Finite 10,
                                      AggregateTotals.totalDistance = Finite 100,
                                      AggregateTotals.totalCalories = Finite 10,
                                      AggregateTotals.totalSteps = Finite 100,
                                      AggregateTotals.eventCount = 1 \<rparr> \<rparr>,
           error = None, IngestResponse.errors = None \<rparr> \<rparr>"
proof -
  let ?n = "\<lparr> NormalizedEventPayload.eventId = ''e1'', NormalizedEventPayload.sessionId = ''s1'',
           NormalizedEventPayload.userId = ''u1'', NormalizedEventPayload.timestamp = Millis 100,
           NormalizedEventPayload.duration = 10, NormalizedEventPayload.distance = 100,
           NormalizedEventPayload.calories = 10, NormalizedEventPayload.steps = 100,
           NormalizedEventPayload.sequenceNumber = Some 1 \<rparr>"
  let ?db2 = "markProcessing ikey ''s1'' envNoFaults db"
  let ?ev = "eventObject ?n envNoFaults"
  let ?agg = "\<lparr> SessionAggregates.startTime = Millis 100, SessionAggregates.endTime = Millis 100,
                  SessionAggregates.totalDuration = Finite 10,
                  SessionAggregates.totalDistance = Finite 100,
                  SessionAggregates.totalCalories = Finite 10,
                  SessionAggregates.totalSteps = Finite 100,
                  SessionAggregates.eventCount = 1,
                  SessionAggregates.lastEventTime = Millis 100 \<rparr>"
  have e: "events ?db2 ''s1'' = []" "sessions ?db2 ''s1'' = None"
    using assms(3,4) by (simp_all add: markProcessing_def)
  have t: "\<exists>db0. upsertTransaction ''s1'' ''u1'' ?ev envNoFaults ?db2 =
      Inr (\<lparr> UpsertResult.status = Created, UpsertResult.session = Some ?agg \<rparr>, db0)"
    by (simp add: upsertTransaction_def e
        computeAggregates_def sortByTimestamp_def sum_numbers_def Let_def eventObject_def
        firstUndefined_def listDocuments_def orZero_def roundDouble_examples
        del: One_nat_def)
  then obtain db0 where t0: "upsertTransaction ''s1'' ''u1'' ?ev envNoFaults ?db2 =
      Inr (\<lparr> UpsertResult.status = Created, UpsertResult.session = Some ?agg \<rparr>, db0)" ..
  have nf: "faults envNoFaults 0 = None" by (simp add: envNoFaults_def)
  have u: "upsertEventAndUpdateSession ''s1'' ''u1'' ?ev envNoFaults ?db2 =
      \<lparr> result = Inr \<lparr> UpsertResult.status = Created, UpsertResult.session = Some ?agg \<rparr>,
        store = db0, sleeps = [], attempts = 1 \<rparr>"
    unfolding upsert_no_fault [OF nf] t0 by (simp add: attemptOutcome_def)
  have p: "isValid (validatePayload (body req) DEFAULT_CONSTRAINTS envNoFaults)"
    unfolding assms(1) by (rule payloadE1_valid)
  have n: "normalizePayload (body req) envNoFaults = Inr ?n"
    unfolding assms(1) by (rule reqE1_normalized)
  show ?thesis
    unfolding processWithKey_processed [OF assms(2) n p]
    by (simp add: u successResponse_def cacheResponse_def undefinedIn_def Let_def
        del: One_nat_def)
qed

lemma reqE1_reply_on_failed:
  "fst (ingestSessionEvent envNoFaults reqE1 storeFailedKey) =
     \<lparr> statusCode = 200,
       json = ResponseObject
         \<lparr> success = True,
           IngestResponse.session =
             Present \<lparr> SessionInfo.sessionId = ''s1'',
                       aggregates = \<lparr> AggregateTotals.totalDuration = Finite 10,
                                      AggregateTotals.totalDistance = Finite 100,
                                      AggregateTotals.totalCalories = Finite 10,
                                      AggregateTotals.totalSteps = Finite 100,
                                      AggregateTotals.eventCount = 1 \<rparr> \<rparr>,
           error = None, IngestResponse.errors = None \<rparr> \<rparr>"
proof -
  have k: "ingestSessionEvent envNoFaults reqE1 storeFailedKey
             = processWithKey ''k1'' envNoFaults reqE1 storeFailedKey"
    by (rule ingest_with_key [OF reqE1_key]) simp
  have nr: "\<not> replayable envNoFaults storeFailedKey ''k1''"
    by (simp add: replayable_def storeFailedKey_def failedRecord_def)
  have b: "body reqE1 = payloadE1" by (simp add: reqE1_def)
  show ?thesis
    unfolding k
    by (rule payloadE1_reply [OF b nr]) (simp_all add: storeFailedKey_def emptyStore_def)
qed

lemma processWithKey_frame:
  assumes "k \<noteq> ikey"
  shows "idempotency (snd (processWithKey ikey env req db)) k = idempotency db k"
proof (cases "replayable env db ikey")
  case True
  then obtain rec where "idempotency db ikey = Some rec"
    "\<not> toMillis (expiresAt rec) < toMillis (now env)"
    "IdempotencyRecord.status rec = Completed"
    by (auto simp add: replayable_def split: option.splits)
  then show ?thesis by (simp add: processWithKey_completed)
next
  case False
  note c = checkIdempotency_not_replayable(3) [OF False assms]
  show ?thesis
  proof (cases "isValid (validatePayload (body req) DEFAULT_CONSTRAINTS env)")
    case inv: False
    show ?thesis by (simp add: processWithKey_invalid [OF False inv] c)
  next
    case True
    from normalizePayload_valid [OF True]
    obtain normalized where n: "normalizePayload (body req) env = Inr normalized" by blast
    have m: "\<And>sid. idempotency (markProcessing ikey sid env db) k = idempotency db k"
      using assms by (simp add: markProcessing_def)
    show ?thesis
      unfolding processWithKey_processed [OF False n True] Let_def
      using assms
      by (auto simp add: catchBlock_def markFailed_def cacheResponse_def upsert_idempotency m
          split: sum.splits option.splits)
  qed
qed

lemma processWithKey_record:
  assumes "\<not> replayable env db ikey"
    and "isValid (validatePayload (body req) DEFAULT_CONSTRAINTS env)"
  shows "\<exists>sid eid rec. RawEventPayload.sessionId (body req) = Some sid
     \<and> RawEventPayload.eventId (body req) = Some eid
     \<and> idempotency (snd (processWithKey ikey env req db)) ikey = Some rec
     \<and> IdempotencyRecord.sessionId rec = sid
     \<and> IdempotencyRecord.createdAt rec = now env
     \<and> expiresAt rec = ttlExpiry env
     \<and> (IdempotencyRecord.status rec = Completed
            \<and> statusCode (fst (processWithKey ikey env req db)) = 200
            \<and> response rec = json (fst (processWithKey ikey env req db))
            \<and> (\<exists>r. response rec = ResponseObject r \<and> success r)
            \<and> map_of (events (snd (processWithKey ikey env req db)) sid) eid \<noteq> None
          \<or> IdempotencyRecord.status rec = Failed
            \<and> statusCode (fst (processWithKey ikey env req db)) = 500
            \<and> (\<exists>msg. response rec = ErrorObject msg
                  \<and> json (fst (processWithKey ikey env req db)) =
                      ResponseObject \<lparr> success = False, IngestResponse.session = Absent,
                                       error = Some msg, IngestResponse.errors = None \<rparr>))"
proof -
  from normalizePayload_valid [OF assms(2)]
  obtain normalized where n: "normalizePayload (body req) env = Inr normalized"
    and ids: "RawEventPayload.eventId (body req) = Some (NormalizedEventPayload.eventId normalized)"
      "RawEventPayload.sessionId (body req) = Some (NormalizedEventPayload.sessionId normalized)"
      "NormalizedEventPayload.sessionId normalized \<noteq> []"
    by blast
  let ?sid = "NormalizedEventPayload.sessionId normalized"
  let ?eid = "NormalizedEventPayload.eventId normalized"
  let ?out = "upsertEventAndUpdateSession ?sid (NormalizedEventPayload.userId normalized)
                (eventObject normalized env) env (markProcessing ikey ?sid env db)"
  have eid: "Event.eventId (eventObject normalized env) = ?eid"
    by (simp add: eventObject_def)
  have failed: "\<And>err. processWithKey ikey env req db = catchBlock ikey (Some ?sid) err env (store ?out)
      \<Longrightarrow> ?thesis"
    using ids by (simp add: catchBlock_def markFailed_def)
  show ?thesis
  proof (cases "result ?out")
    case (Inl err)
    have "processWithKey ikey env req db = catchBlock ikey (Some ?sid) err env (store ?out)"
      unfolding processWithKey_processed [OF assms(1) n assms(2)] Let_def by (simp add: Inl)
    then show ?thesis by (rule failed)
  next
    case (Inr res)
    note st = upsert_event_stored [OF Inr, unfolded eid]
    show ?thesis
    proof (cases "cacheResponse ikey ?sid (ResponseObject (successResponse ?sid res)) env
                    (store ?out)")
      case (Inl err)
      have "processWithKey ikey env req db = catchBlock ikey (Some ?sid) err env (store ?out)"
        unfolding processWithKey_processed [OF assms(1) n assms(2)] Let_def
        by (simp add: Inr Inl)
      then show ?thesis by (rule failed)
    next
      case c: (Inr db3)
      have p: "processWithKey ikey env req db =
          (\<lparr> statusCode = 200, json = ResponseObject (successResponse ?sid res) \<rparr>, db3)"
        unfolding processWithKey_processed [OF assms(1) n assms(2)] Let_def
        by (simp add: Inr c)
      have db3: "db3 = (store ?out)\<lparr> idempotency := (idempotency (store ?out))(ikey \<mapsto>
                 \<lparr> IdempotencyRecord.sessionId = ?sid, IdempotencyRecord.status = Completed,
                   response = ResponseObject (successResponse ?sid res),
                   IdempotencyRecord.createdAt = now env,
                   expiresAt = ttlExpiry env \<rparr>) \<rparr>"
        using c by (auto simp add: cacheResponse_def split: option.splits)
      have ev: "events db3 = events (store ?out)" unfolding db3 by simp
      have rc: "idempotency db3 ikey = Some
                 \<lparr> IdempotencyRecord.sessionId = ?sid, IdempotencyRecord.status = Completed,
                   response = ResponseObject (successResponse ?sid res),
                   IdempotencyRecord.createdAt = now env,
                   expiresAt = ttlExpiry env \<rparr>"
        unfolding db3 by simp
      show ?thesis
        unfolding p using ids st
        by (simp add: ev rc successResponse_def)
    qed
  qed
qed

section \<open>Claims about the idempotency ledger\<close>

text \<open>
  C6. \<open>checkIdempotency\<close> returns novel (not a duplicate, no cached response) when the
  record of the key is absent, and when it is expired, in which case the stale record is
  deleted and nothing else changes; it returns duplicate with the cached response verbatim
  when the record is present, unexpired and \<open>completed\<close>; it returns duplicate with no cached
  response when the record is present, unexpired and \<open>processing\<close>.
\<close>

theorem checkIdempotency_cases:
  "(idempotency db ikey = None \<longrightarrow>
      checkIdempotency ikey env db = (\<lparr> isDuplicate = False, cachedResponse = None \<rparr>, db))
   \<and> (\<forall>rec. idempotency db ikey = Some rec \<and> toMillis (expiresAt rec) < toMillis (now env) \<longrightarrow>
         checkIdempotency ikey env db
           = (\<lparr> isDuplicate = False, cachedResponse = None \<rparr>,
              db\<lparr> idempotency := (idempotency db)(ikey := None) \<rparr>))
   \<and> (\<forall>rec. idempotency db ikey = Some rec \<and> \<not> toMillis (expiresAt rec) < toMillis (now env)
            \<and> IdempotencyRecord.status rec = Completed \<longrightarrow>
         checkIdempotency ikey env db
           = (\<lparr> isDuplicate = True, cachedResponse = Some (response rec) \<rparr>, db))
   \<and> (\<forall>rec. idempotency db ikey = Some rec \<and> \<not> toMillis (expiresAt rec) < toMillis (now env)
            \<and> IdempotencyRecord.status rec = Processing \<longrightarrow>
         checkIdempotency ikey env db
           = (\<lparr> isDuplicate = True, cachedResponse = None \<rparr>, db))"
  by (simp add: checkIdempotency_def)

theorem checkIdempotency_cases_witness:
  "idempotency storeCompletedKey ''k1'' = Some completedRecord
   \<and> \<not> toMillis (expiresAt completedRecord) < toMillis (now envNoFaults)
   \<and> IdempotencyRecord.status completedRecord = Completed
   \<and> checkIdempotency ''k1'' envNoFaults storeCompletedKey
       = (\<lparr> isDuplicate = True, cachedResponse = Some (response completedRecord) \<rparr>,
          storeCompletedKey)
   \<and> idempotency storeCompletedKey ''k2'' = None
   \<and> checkIdempotency ''k2'' envNoFaults storeCompletedKey
       = (\<lparr> isDuplicate = False, cachedResponse = None \<rparr>, storeCompletedKey)"
proof -
  have a: "idempotency storeCompletedKey ''k1'' = Some completedRecord"
    and b: "idempotency storeCompletedKey ''k2'' = None"
    by (simp_all add: storeCompletedKey_def)
  have c: "\<not> toMillis (expiresAt completedRecord) < toMillis (now envNoFaults)"
    and d: "IdempotencyRecord.status completedRecord = Completed"
    by (simp_all add: completedRecord_def envNoFaults_def)
  show ?thesis
    using checkIdempotency_cases [of storeCompletedKey "''k1''" envNoFaults]
      checkIdempotency_cases [of storeCompletedKey "''k2''" envNoFaults] a b c d
    by blast
qed

text \<open>
  C7, as the specification states it: a request bearing a key whose unexpired record is
  \<open>completed\<close> or \<open>failed\<close> receives the recorded outcome again. It fails for \<open>failed\<close>:
  with a failed, unexpired record under its key, a valid request (its payload complete,
  sequence number included) is processed again and answered 200 with a success payload, not
  with the recorded failure.
\<close>

theorem failed_key_reprocessed_counterexample:
  "extractIdempotencyKey reqE1 = Some ''k1''
   \<and> idempotency storeFailedKey ''k1'' = Some failedRecord
   \<and> IdempotencyRecord.status failedRecord = Failed
   \<and> \<not> toMillis (expiresAt failedRecord) < toMillis (now envNoFaults)
   \<and> response failedRecord = ErrorObject ''UNAVAILABLE''
   \<and> RawEventPayload.sequenceNumber (body reqE1) = Some 1
   \<and> isValid (validatePayload (body reqE1) DEFAULT_CONSTRAINTS envNoFaults)
   \<and> fst (ingestSessionEvent envNoFaults reqE1 storeFailedKey) =
       \<lparr> statusCode = 200,
         json = ResponseObject
           \<lparr> success = True,
             IngestResponse.session =
               Present \<lparr> SessionInfo.sessionId = ''s1'',
                         aggregates = \<lparr> AggregateTotals.totalDuration = Finite 10,
                                        AggregateTotals.totalDistance = Finite 100,
                                        AggregateTotals.totalCalories = Finite 10,
                                        AggregateTotals.totalSteps = Finite 100,
                                        AggregateTotals.eventCount = 1 \<rparr> \<rparr>,
             error = None, IngestResponse.errors = None \<rparr> \<rparr>
   \<and> json (fst (ingestSessionEvent envNoFaults reqE1 storeFailedKey)) \<noteq> response failedRecord"
proof -
  have b: "body reqE1 = payloadE1" by (simp add: reqE1_def)
  have v: "isValid (validatePayload (body reqE1) DEFAULT_CONSTRAINTS envNoFaults)"
    unfolding b by (rule payloadE1_valid)
  have s: "RawEventPayload.sequenceNumber (body reqE1) = Some 1"
    unfolding b by (simp add: payloadE1_def)
  show ?thesis
    unfolding reqE1_reply_on_failed using v s
    by (simp add: reqE1_key storeFailedKey_def failedRecord_def envNoFaults_def)
qed

text \<open>
  C7, amended. For a request bearing a key with a record: when the record is unexpired
  and \<open>completed\<close>, the handler answers 200 with the cached response verbatim and writes
  nothing; when the record is unexpired and not \<open>completed\<close> (failed or in flight), nothing
  is replayed and the answer is the one a request with a novel key gets; when the record is
  expired, the request is handled exactly as with a novel key.
\<close>

theorem idempotent_replay:
  assumes "extractIdempotencyKey req = Some ikey" and "ikey \<noteq> []"
    and "idempotency db ikey = Some rec"
  shows "(\<not> toMillis (expiresAt rec) < toMillis (now env)
            \<and> IdempotencyRecord.status rec = Completed \<longrightarrow>
          ingestSessionEvent env req db = (\<lparr> statusCode = 200, json = response rec \<rparr>, db))
     \<and> (\<not> toMillis (expiresAt rec) < toMillis (now env)
            \<and> IdempotencyRecord.status rec \<noteq> Completed \<longrightarrow>
          fst (ingestSessionEvent env req db)
            = fst (ingestSessionEvent env req
                     (db\<lparr> idempotency := (idempotency db)(ikey := None) \<rparr>)))
     \<and> (toMillis (expiresAt rec) < toMillis (now env) \<longrightarrow>
          ingestSessionEvent env req db
            = ingestSessionEvent env req (db\<lparr> idempotency := (idempotency db)(ikey := None) \<rparr>))"
  using processWithKey_completed [OF assms(3), of env req]
    processWithKey_expired [OF assms(3), of env req]
    processWithKey_not_completed [OF assms(3), of env req]
  by (simp add: ingest_with_key [OF assms(1,2)])

theorem idempotent_replay_witness:
  "extractIdempotencyKey reqE1 = Some ''k1'' \<and> ''k1'' \<noteq> []
   \<and> idempotency storeCompletedKey ''k1'' = Some completedRecord
   \<and> \<not> toMillis (expiresAt completedRecord) < toMillis (now envNoFaults)
   \<and> IdempotencyRecord.status completedRecord = Completed
   \<and> ingestSessionEvent envNoFaults reqE1 storeCompletedKey
       = (\<lparr> statusCode = 200, json = response completedRecord \<rparr>, storeCompletedKey)
   \<and> idempotency storeFailedKey ''k1'' = Some failedRecord
   \<and> \<not> toMillis (expiresAt failedRecord) < toMillis (now envNoFaults)
   \<and> IdempotencyRecord.status failedRecord \<noteq> Completed
   \<and> fst (ingestSessionEvent envNoFaults reqE1 storeFailedKey)
       = fst (ingestSessionEvent envNoFaults reqE1
                (storeFailedKey\<lparr> idempotency := (idempotency storeFailedKey)(''k1'' := None) \<rparr>))"
proof -
  have a: "idempotency storeCompletedKey ''k1'' = Some completedRecord"
    by (simp add: storeCompletedKey_def)
  have c: "\<not> toMillis (expiresAt completedRecord) < toMillis (now envNoFaults)"
    and d: "IdempotencyRecord.status completedRecord = Completed"
    by (simp_all add: completedRecord_def envNoFaults_def)
  have a': "idempotency storeFailedKey ''k1'' = Some failedRecord"
    by (simp add: storeFailedKey_def)
  have c': "\<not> toMillis (expiresAt failedRecord) < toMillis (now envNoFaults)"
    and d': "IdempotencyRecord.status failedRecord \<noteq> Completed"
    by (simp_all add: failedRecord_def envNoFaults_def)
  have n: "''k1'' \<noteq> []" by simp
  show ?thesis
    using idempotent_replay [OF reqE1_key n a, of envNoFaults]
      idempotent_replay [OF reqE1_key n a', of envNoFaults] reqE1_key a c d a' c' d'
    by blast
qed

section \<open>Claims about validation and the request boundary\<close>

text \<open>
  C9. Metric validation accepts exactly the payloads whose present measures are
  non-negative, with distance at most 100,000, calories at most 10,000, steps integral and
  at most 100,000 and duration at most 86,400; timestamp validation accepts exactly the
  timestamps at most 1 hour ahead of and at most 30 days behind the clock; a payload that
  passes \<open>validatePayload\<close> passes both. So a distance of 100,001 is rejected and 100,000
  accepted, a timestamp 2 hours ahead or 31 days back is rejected.
\<close>

theorem validation_boundaries:
  "(isValid (validateMetrics p DEFAULT_CONSTRAINTS) \<longleftrightarrow>
      (\<forall>d. RawEventPayload.distance p = Some d \<longrightarrow> 0 \<le> d \<and> d \<le> 100000)
      \<and> (\<forall>c. RawEventPayload.calories p = Some c \<longrightarrow> 0 \<le> c \<and> c \<le> 10000)
      \<and> (\<forall>n. RawEventPayload.steps p = Some n \<longrightarrow> 0 \<le> n \<and> n \<in> \<int> \<and> n \<le> 100000)
      \<and> (\<forall>d. RawEventPayload.duration p = Some d \<longrightarrow> 0 \<le> d \<and> d \<le> 86400))
   \<and> (isValid (validateTimestamp ts DEFAULT_CONSTRAINTS env) \<longleftrightarrow>
        toMillis ts - toMillis (now env) \<le> 3600 * 1000
        \<and> toMillis (now env) - toMillis ts \<le> 30 * 24 * 3600 * 1000)
   \<and> (isValid (validatePayload p DEFAULT_CONSTRAINTS env) \<longrightarrow>
        isValid (validateMetrics p DEFAULT_CONSTRAINTS)
        \<and> (\<exists>raw t. RawEventPayload.timestamp p = Some raw \<and> normalizeTimestamp env raw = Inr t
              \<and> isValid (validateTimestamp t DEFAULT_CONSTRAINTS env)))
   \<and> (RawEventPayload.distance p = Some 100001 \<longrightarrow>
        \<not> isValid (validateMetrics p DEFAULT_CONSTRAINTS))
   \<and> (RawEventPayload.distance p = Some 100000 \<and> RawEventPayload.calories p = None
        \<and> RawEventPayload.steps p = None \<and> RawEventPayload.duration p = None \<longrightarrow>
        isValid (validateMetrics p DEFAULT_CONSTRAINTS))
   \<and> (toMillis ts = toMillis (now env) + 2 * 3600 * 1000 \<longrightarrow>
        \<not> isValid (validateTimestamp ts DEFAULT_CONSTRAINTS env))
   \<and> (toMillis ts = toMillis (now env) - 31 * 24 * 3600 * 1000 \<longrightarrow>
        \<not> isValid (validateTimestamp ts DEFAULT_CONSTRAINTS env))"
proof -
  have a: "RawEventPayload.distance p = Some 100001 \<Longrightarrow>
        \<not> isValid (validateMetrics p DEFAULT_CONSTRAINTS)"
    by (simp add: validateMetrics_valid)
  have b: "RawEventPayload.distance p = Some 100000 \<and> RawEventPayload.calories p = None
        \<and> RawEventPayload.steps p = None \<and> RawEventPayload.duration p = None \<Longrightarrow>
        isValid (validateMetrics p DEFAULT_CONSTRAINTS)"
    by (simp add: validateMetrics_valid)
  have c: "toMillis ts = toMillis (now env) + 2 * 3600 * 1000 \<Longrightarrow>
        \<not> isValid (validateTimestamp ts DEFAULT_CONSTRAINTS env)"
    by (simp add: validateTimestamp_valid)
  have d: "toMillis ts = toMillis (now env) - 31 * 24 * 3600 * 1000 \<Longrightarrow>
        \<not> isValid (validateTimestamp ts DEFAULT_CONSTRAINTS env)"
    by (simp add: validateTimestamp_valid)
  show ?thesis
    using validateMetrics_valid [of p] validateTimestamp_valid [of ts env]
      validatePayload_valid [of p DEFAULT_CONSTRAINTS env] a b c d
    by blast
qed

theorem validation_boundaries_witness:
  "isValid (validatePayload payloadE1 DEFAULT_CONSTRAINTS envNoFaults)
   \<and> RawEventPayload.distance (payloadE1\<lparr> RawEventPayload.distance := Some 100001 \<rparr>) = Some 100001
   \<and> \<not> isValid (validateMetrics (payloadE1\<lparr> RawEventPayload.distance := Some 100001 \<rparr>)
          DEFAULT_CONSTRAINTS)
   \<and> RawEventPayload.steps (payloadE1\<lparr> RawEventPayload.steps := Some (1 / 2) \<rparr>) = Some (1 / 2)
   \<and> \<not> isValid (validateMetrics (payloadE1\<lparr> RawEventPayload.steps := Some (1 / 2) \<rparr>)
          DEFAULT_CONSTRAINTS)
   \<and> isValid (validateMetrics payloadE1 DEFAULT_CONSTRAINTS)
   \<and> toMillis (Millis 7201000) = toMillis (now envNoFaults) + 2 * 3600 * 1000
   \<and> \<not> isValid (validateTimestamp (Millis 7201000) DEFAULT_CONSTRAINTS envNoFaults)"
proof -
  have h: "(1 / 2 :: rat) \<notin> \<int>"
  proof
    assume "(1 / 2 :: rat) \<in> \<int>"
    then obtain z :: int where "(1 / 2 :: rat) = of_int z" by (auto elim: Ints_cases)
    then have "(1 :: rat) = of_int (2 * z)" by simp
    then have "(1 :: int) = 2 * z" by (metis of_int_eq_iff of_int_1)
    then show False by presburger
  qed
  have t: "toMillis (Millis 7201000) = toMillis (now envNoFaults) + 2 * 3600 * 1000"
    by (simp add: envNoFaults_def)
  have s: "RawEventPayload.steps (payloadE1\<lparr> RawEventPayload.steps := Some (1 / 2) \<rparr>) = Some (1 / 2)"
    by simp
  have v: "isValid (validatePayload payloadE1 DEFAULT_CONSTRAINTS envNoFaults)"
    by (rule payloadE1_valid)
  have m1: "\<not> isValid (validateMetrics (payloadE1\<lparr> RawEventPayload.distance := Some 100001 \<rparr>)
          DEFAULT_CONSTRAINTS)"
    using validation_boundaries [of "payloadE1\<lparr> RawEventPayload.distance := Some 100001 \<rparr>"]
    by simp
  have m2: "\<not> isValid (validateMetrics (payloadE1\<lparr> RawEventPayload.steps := Some (1 / 2) \<rparr>)
          DEFAULT_CONSTRAINTS)"
    using validation_boundaries [of "payloadE1\<lparr> RawEventPayload.steps := Some (1 / 2) \<rparr>"] h s
    by blast
  have m3: "isValid (validateMetrics payloadE1 DEFAULT_CONSTRAINTS)"
    using validation_boundaries [of payloadE1 _ envNoFaults] v by blast
  have m4: "\<not> isValid (validateTimestamp (Millis 7201000) DEFAULT_CONSTRAINTS envNoFaults)"
    using validation_boundaries [of _ "Millis 7201000" envNoFaults] t by blast
  show ?thesis using v m1 m2 m3 m4 t by simp
qed

text \<open>
  C10. When neither the \<open>idempotency-key\<close> header nor the body's \<open>idempotencyKey\<close> is
  present (undefined or empty) and the body carries a non-empty \<open>eventId\<close>, the handler does
  not answer with the missing-key error and proceeds with the \<open>eventId\<close> as idempotency key:
  the records of all other keys are left as they were; a completed, unexpired record under
  the \<open>eventId\<close> is replayed (200 with its response, nothing written); otherwise an invalid
  payload is answered 400 with the validation errors, and a valid payload is processed and
  leaves under the \<open>eventId\<close> a record for the payload's session, created at the time of the
  request and expiring after the time to live, which is either \<open>completed\<close>, holding the
  success response that is answered with 200, the event being stored under the session, or
  \<open>failed\<close>, holding the message that is answered with 500. The missing-key answer is given
  exactly when header key, body key and \<open>eventId\<close> are all absent (undefined or empty).
\<close>

theorem eventId_is_fallback_key:
  "(\<not> truthy (headers req ''idempotency-key'') \<and> \<not> truthy (idempotencyKey (body req))
      \<and> RawEventPayload.eventId (body req) = Some eid \<and> eid \<noteq> [] \<longrightarrow>
        extractIdempotencyKey req = Some eid
        \<and> ingestSessionEvent env req db = processWithKey eid env req db
        \<and> fst (ingestSessionEvent env req db) \<noteq> missingKeyReply
        \<and> (\<forall>k. k \<noteq> eid \<longrightarrow>
              idempotency (snd (ingestSessionEvent env req db)) k = idempotency db k)
        \<and> (replayable env db eid \<longrightarrow>
              (\<exists>rec. idempotency db eid = Some rec
                 \<and> ingestSessionEvent env req db
                     = (\<lparr> statusCode = 200, json = response rec \<rparr>, db)))
        \<and> (\<not> replayable env db eid
              \<and> \<not> isValid (validatePayload (body req) DEFAULT_CONSTRAINTS env) \<longrightarrow>
              ingestSessionEvent env req db =
                (\<lparr> statusCode = 400,
                   json = ResponseObject
                     \<lparr> success = False, IngestResponse.session = Absent, error = None,
                       IngestResponse.errors =
                         Some (ValidationResult.errors
                                 (validatePayload (body req) DEFAULT_CONSTRAINTS env)) \<rparr> \<rparr>,
                 snd (checkIdempotency eid env db)))
        \<and> (\<not> replayable env db eid
              \<and> isValid (validatePayload (body req) DEFAULT_CONSTRAINTS env) \<longrightarrow>
              (\<exists>sid rec. RawEventPayload.sessionId (body req) = Some sid
                 \<and> idempotency (snd (ingestSessionEvent env req db)) eid = Some rec
                 \<and> IdempotencyRecord.sessionId rec = sid
                 \<and> IdempotencyRecord.createdAt rec = now env
                 \<and> expiresAt rec = ttlExpiry env
                 \<and> (IdempotencyRecord.status rec = Completed
                        \<and> statusCode (fst (ingestSessionEvent env req db)) = 200
                        \<and> response rec = json (fst (ingestSessionEvent env req db))
                        \<and> (\<exists>r. response rec = ResponseObject r \<and> success r)
                        \<and> map_of (events (snd (ingestSessionEvent env req db)) sid) eid \<noteq> None
                      \<or> IdempotencyRecord.status rec = Failed
                        \<and> statusCode (fst (ingestSessionEvent env req db)) = 500
                        \<and> (\<exists>msg. response rec = ErrorObject msg
                              \<and> json (fst (ingestSessionEvent env req db)) =
                                  ResponseObject
                                    \<lparr> success = False, IngestResponse.session = Absent,
                                      error = Some msg, IngestResponse.errors = None \<rparr>)))))
   \<and> (fst (ingestSessionEvent env req db) = missingKeyReply \<longleftrightarrow>
        \<not> truthy (headers req ''idempotency-key'') \<and> \<not> truthy (idempotencyKey (body req))
        \<and> \<not> truthy (RawEventPayload.eventId (body req)))
   \<and> (headers req ''idempotency-key'' = None \<and> idempotencyKey (body req) = None
        \<and> RawEventPayload.eventId (body req) = None \<longrightarrow>
        ingestSessionEvent env req db = (missingKeyReply, db))"
proof -
  have first: "extractIdempotencyKey req = Some eid
        \<and> ingestSessionEvent env req db = processWithKey eid env req db
        \<and> fst (ingestSessionEvent env req db) \<noteq> missingKeyReply
        \<and> (\<forall>k. k \<noteq> eid \<longrightarrow>
              idempotency (snd (ingestSessionEvent env req db)) k = idempotency db k)
        \<and> (replayable env db eid \<longrightarrow>
              (\<exists>rec. idempotency db eid = Some rec
                 \<and> ingestSessionEvent env req db
                     = (\<lparr> statusCode = 200, json = response rec \<rparr>, db)))
        \<and> (\<not> replayable env db eid
              \<and> \<not> isValid (validatePayload (body req) DEFAULT_CONSTRAINTS env) \<longrightarrow>
              ingestSessionEvent env req db =
                (\<lparr> statusCode = 400,
                   json = ResponseObject
                     \<lparr> success = False, IngestResponse.session = Absent, error = None,
                       IngestResponse.errors =
                         Some (ValidationResult.errors
                                 (validatePayload (body req) DEFAULT_CONSTRAINTS env)) \<rparr> \<rparr>,
                 snd (checkIdempotency eid env db)))
        \<and> (\<not> replayable env db eid
              \<and> isValid (validatePayload (body req) DEFAULT_CONSTRAINTS env) \<longrightarrow>
              (\<exists>sid rec. RawEventPayload.sessionId (body req) = Some sid
                 \<and> idempotency (snd (ingestSessionEvent env req db)) eid = Some rec
                 \<and> IdempotencyRecord.sessionId rec = sid
                 \<and> IdempotencyRecord.createdAt rec = now env
                 \<and> expiresAt rec = ttlExpiry env
                 \<and> (IdempotencyRecord.status rec = Completed
                        \<and> statusCode (fst (ingestSessionEvent env req db)) = 200
                        \<and> response rec = json (fst (ingestSessionEvent env req db))
                        \<and> (\<exists>r. response rec = ResponseObject r \<and> success r)
                        \<and> map_of (events (snd (ingestSessionEvent env req db)) sid) eid \<noteq> None
                      \<or> IdempotencyRecord.status rec = Failed
                        \<and> statusCode (fst (ingestSessionEvent env req db)) = 500
                        \<and> (\<exists>msg. response rec = ErrorObject msg
                              \<and> json (fst (ingestSessionEvent env req db)) =
                                  ResponseObject
                                    \<lparr> success = False, IngestResponse.session = Absent,
                                      error = Some msg, IngestResponse.errors = None \<rparr>))))"
    if h: "\<not> truthy (headers req ''idempotency-key'')" "\<not> truthy (idempotencyKey (body req))"
      "RawEventPayload.eventId (body req) = Some eid" "eid \<noteq> []"
  proof -
    have key: "extractIdempotencyKey req = Some eid"
      using h by (simp add: extractIdempotencyKey_def orElse_def truthy_def)
    have run: "ingestSessionEvent env req db = processWithKey eid env req db"
      by (rule ingest_with_key [OF key h(4)])
    have frame: "\<forall>k. k \<noteq> eid \<longrightarrow>
        idempotency (snd (processWithKey eid env req db)) k = idempotency db k"
      by (simp add: processWithKey_frame)
    have replay: "replayable env db eid \<Longrightarrow>
        \<exists>rec. idempotency db eid = Some rec
          \<and> processWithKey eid env req db = (\<lparr> statusCode = 200, json = response rec \<rparr>, db)"
      by (auto simp add: replayable_def processWithKey_completed split: option.splits)
    have invalid: "\<not> replayable env db eid
        \<and> \<not> isValid (validatePayload (body req) DEFAULT_CONSTRAINTS env) \<Longrightarrow>
        processWithKey eid env req db =
          (\<lparr> statusCode = 400,
             json = ResponseObject
               \<lparr> success = False, IngestResponse.session = Absent, error = None,
                 IngestResponse.errors =
                   Some (ValidationResult.errors
                           (validatePayload (body req) DEFAULT_CONSTRAINTS env)) \<rparr> \<rparr>,
           snd (checkIdempotency eid env db))"
      by (simp add: processWithKey_invalid)
    have processed: "\<not> replayable env db eid
        \<and> isValid (validatePayload (body req) DEFAULT_CONSTRAINTS env) \<Longrightarrow>
        \<exists>sid rec. RawEventPayload.sessionId (body req) = Some sid
           \<and> idempotency (snd (processWithKey eid env req db)) eid = Some rec
           \<and> IdempotencyRecord.sessionId rec = sid
           \<and> IdempotencyRecord.createdAt rec = now env
           \<and> expiresAt rec = ttlExpiry env
           \<and> (IdempotencyRecord.status rec = Completed
                  \<and> statusCode (fst (processWithKey eid env req db)) = 200
                  \<and> response rec = json (fst (processWithKey eid env req db))
                  \<and> (\<exists>r. response rec = ResponseObject r \<and> success r)
                  \<and> map_of (events (snd (processWithKey eid env req db)) sid) eid \<noteq> None
                \<or> IdempotencyRecord.status rec = Failed
                  \<and> statusCode (fst (processWithKey eid env req db)) = 500
                  \<and> (\<exists>msg. response rec = ErrorObject msg
                        \<and> json (fst (processWithKey eid env req db)) =
                            ResponseObject
                              \<lparr> success = False, IngestResponse.session = Absent,
                                error = Some msg, IngestResponse.errors = None \<rparr>))"
      using processWithKey_record [of env db eid req] h(3) by auto
    show ?thesis
      unfolding run
      using key frame replay invalid processed processWithKey_not_missingKey [of eid env req db]
      by blast
  qed
  have c: "fst (ingestSessionEvent env req db) = missingKeyReply \<longleftrightarrow>
        \<not> truthy (headers req ''idempotency-key'') \<and> \<not> truthy (idempotencyKey (body req))
        \<and> \<not> truthy (RawEventPayload.eventId (body req))"
  proof -
    have "fst (ingestSessionEvent env req db) = missingKeyReply \<longleftrightarrow>
        \<not> truthy (extractIdempotencyKey req)"
      by (simp add: ingestSessionEvent_def Let_def processWithKey_not_missingKey)
    then show ?thesis unfolding extract_truthy by blast
  qed
  have d: "headers req ''idempotency-key'' = None \<and> idempotencyKey (body req) = None
        \<and> RawEventPayload.eventId (body req) = None \<Longrightarrow>
        ingestSessionEvent env req db = (missingKeyReply, db)"
    by (simp add: ingestSessionEvent_def Let_def extractIdempotencyKey_def orElse_def truthy_def)
  show ?thesis
    using first c d by blast
qed

theorem eventId_is_fallback_key_witness:
  "\<not> truthy (headers reqNoKey ''idempotency-key'') \<and> \<not> truthy (idempotencyKey (body reqNoKey))
   \<and> RawEventPayload.eventId (body reqNoKey) = Some ''e1'' \<and> ''e1'' \<noteq> []
   \<and> \<not> replayable envNoFaults emptyStore ''e1''
   \<and> isValid (validatePayload (body reqNoKey) DEFAULT_CONSTRAINTS envNoFaults)
   \<and> extractIdempotencyKey reqNoKey = Some ''e1''
   \<and> fst (ingestSessionEvent envNoFaults reqNoKey emptyStore) \<noteq> missingKeyReply
   \<and> statusCode (fst (ingestSessionEvent envNoFaults reqNoKey emptyStore)) = 200
   \<and> map_option IdempotencyRecord.status
         (idempotency (snd (ingestSessionEvent envNoFaults reqNoKey emptyStore)) ''e1'')
       = Some Completed
   \<and> map_option response
         (idempotency (snd (ingestSessionEvent envNoFaults reqNoKey emptyStore)) ''e1'')
       = Some (json (fst (ingestSessionEvent envNoFaults reqNoKey emptyStore)))
   \<and> idempotency (snd (ingestSessionEvent envNoFaults reqNoKey emptyStore)) ''k1'' = None"
proof -
  let ?out = "ingestSessionEvent envNoFaults reqNoKey emptyStore"
  have b: "body reqNoKey = payloadE1" by (simp add: reqNoKey_def)
  have h: "\<not> truthy (headers reqNoKey ''idempotency-key'')"
    "\<not> truthy (idempotencyKey (body reqNoKey))"
    "RawEventPayload.eventId (body reqNoKey) = Some ''e1''" "''e1'' \<noteq> []"
    by (simp_all add: reqNoKey_def payloadE1_def truthy_def)
  have nr: "\<not> replayable envNoFaults emptyStore ''e1''"
    by (simp add: replayable_def emptyStore_def)
  have v: "isValid (validatePayload (body reqNoKey) DEFAULT_CONSTRAINTS envNoFaults)"
    unfolding b by (rule payloadE1_valid)
  note t = eventId_is_fallback_key [of reqNoKey "''e1''" envNoFaults emptyStore]
  have run: "?out = processWithKey ''e1'' envNoFaults reqNoKey emptyStore"
    and key: "extractIdempotencyKey reqNoKey = Some ''e1''"
    and nm: "fst ?out \<noteq> missingKeyReply"
    using t h by blast+
  have code: "statusCode (fst ?out) = 200"
    unfolding run
    by (subst payloadE1_reply [OF b nr]) (simp_all add: emptyStore_def)
  have fr: "idempotency (snd ?out) ''k1'' = None"
  proof -
    have "\<forall>k. k \<noteq> ''e1'' \<longrightarrow> idempotency (snd ?out) k = idempotency emptyStore k"
      using t h by blast
    then show ?thesis by (simp add: emptyStore_def)
  qed
  have "\<exists>sid rec. RawEventPayload.sessionId (body reqNoKey) = Some sid
                 \<and> idempotency (snd ?out) ''e1'' = Some rec
                 \<and> IdempotencyRecord.sessionId rec = sid
                 \<and> IdempotencyRecord.createdAt rec = now envNoFaults
                 \<and> expiresAt rec = ttlExpiry envNoFaults
                 \<and> (IdempotencyRecord.status rec = Completed
                        \<and> statusCode (fst ?out) = 200
                        \<and> response rec = json (fst ?out)
                        \<and> (\<exists>r. response rec = ResponseObject r \<and> success r)
                        \<and> map_of (events (snd ?out) sid) ''e1'' \<noteq> None
                      \<or> IdempotencyRecord.status rec = Failed
                        \<and> statusCode (fst ?out) = 500
                        \<and> (\<exists>msg. response rec = ErrorObject msg
                              \<and> json (fst ?out) =
                                  ResponseObject
                                    \<lparr> success = False, IngestResponse.session = Absent,
                                      error = Some msg, IngestResponse.errors = None \<rparr>))"
    using t h nr v by blast
  then obtain rec where rec: "idempotency (snd ?out) ''e1'' = Some rec"
    and alt: "IdempotencyRecord.status rec = Completed \<and> response rec = json (fst ?out)
       \<or> statusCode (fst ?out) = 500"
    by blast
  have fin: "IdempotencyRecord.status rec = Completed" "response rec = json (fst ?out)"
    using alt code by auto
  show ?thesis
    using h nr v key nm code fr by (simp add: rec fin)
qed

end
